theory Spec2Isabelle
  imports Main "HOL-Library.Word" "HOL-Library.Monad_Syntax"
begin

section \<open>Machine types\<close>

text \<open>
  The library targets an 8-bit AVR microcontroller, where \<^verbatim>\<open>size_t\<close> is an unsigned
  16-bit integer: additions and subtractions wrap around modulo 65536.  In the option
  monad used below, \<open>None\<close> stands for undefined behaviour of the C++ program (an access
  outside an array, a division by zero).
\<close>

type_synonym size_t = "16 word"
type_synonym byte = "8 word"

section \<open>Region array handles\<close>

text \<open>
  \<^verbatim>\<open>progmem::ProgmemArray<Type, capacity>\<close> and \<^verbatim>\<open>eeprom::EepromArray<Type, capacity>\<close>:
  the capacity is a template parameter, here the argument of each function.
\<close>

definition ProgmemArray_empty :: "size_t \<Rightarrow> bool" where
  "ProgmemArray_empty capacity = (capacity > 0)"

definition ProgmemArray_size :: "size_t \<Rightarrow> size_t" where
  "ProgmemArray_size capacity = capacity"

definition ProgmemArray_max_size :: "size_t \<Rightarrow> size_t" where
  "ProgmemArray_max_size capacity = capacity"

definition EepromArray_empty :: "size_t \<Rightarrow> bool" where
  "EepromArray_empty capacity = (capacity > 0)"

definition EepromArray_size :: "size_t \<Rightarrow> size_t" where
  "EepromArray_size capacity = capacity"

definition EepromArray_max_size :: "size_t \<Rightarrow> size_t" where
  "EepromArray_max_size capacity = capacity"

section \<open>The in-RAM array \<^verbatim>\<open>utils::Array\<close>\<close>

text \<open>
  \<^verbatim>\<open>utils::Array<Type, capacity>\<close> wraps the C array \<^verbatim>\<open>value_type elements[capacity]\<close>: a
  list whose length is the capacity.  \<^verbatim>\<open>operator[]\<close> does no bounds checking; an index
  outside the array is undefined behaviour, \<open>None\<close> here.  A reference to an element is
  the index of its slot; \<open>Array_ref\<close> forms the reference, \<open>Array_read\<close> reads through
  it and \<open>Array_write\<close> assigns through it.  A move from a slot is a copy that leaves the
  source slot as it is.
\<close>

definition Array_ref :: "'a list \<Rightarrow> size_t \<Rightarrow> size_t option" where
  "Array_ref elems index = (if unat index < length elems then Some index else None)"

definition Array_read :: "'a list \<Rightarrow> size_t \<Rightarrow> 'a option" where
  "Array_read elems index =
     (if unat index < length elems then Some (elems ! unat index) else None)"

definition Array_write :: "'a list \<Rightarrow> size_t \<Rightarrow> 'a \<Rightarrow> 'a list option" where
  "Array_write elems index v =
     (if unat index < length elems then Some (elems[unat index := v]) else None)"

text \<open>
  \<^verbatim>\<open>utils::swap(Type (&left)[size], Type (&right)[size])\<close>: the loop
  \<^verbatim>\<open>for(size_t index = 0; index < size; ++index) swap(left[index], right[index]);\<close>
  \<^verbatim>\<open>Array::swap\<close> forwards to it.
\<close>

function swap_arrays ::
  "size_t \<Rightarrow> size_t \<Rightarrow> 'a list \<Rightarrow> 'a list \<Rightarrow> ('a list \<times> 'a list) option" where
  "swap_arrays n index left right =
     (if index < n then
        do {
          l \<leftarrow> Array_read left index;
          r \<leftarrow> Array_read right index;
          left' \<leftarrow> Array_write left index r;
          right' \<leftarrow> Array_write right index l;
          swap_arrays n (index + 1) left' right'
        }
      else Some (left, right))"
  by pat_completeness auto
termination
proof (relation "measure (\<lambda>(n, index, left, right). unat n - unat index)")
  show "wf (measure (\<lambda>(n :: size_t, index :: size_t, left :: 'a list, right :: 'a list).
    unat n - unat index))"
    by simp
next
  fix n index :: size_t and left right :: "'a list" and x xa xb xc
  assume "index < n"
  then have "unat n - unat (index + 1) < unat n - unat index"
    by unat_arith
  then show "((n, index + 1, xb, xc), (n, index, left, right))
      \<in> measure (\<lambda>(n, index, left, right). unat n - unat index)"
    by simp
qed

declare swap_arrays.simps [simp del]

definition Array_swap :: "size_t \<Rightarrow> 'a list \<Rightarrow> 'a list \<Rightarrow> ('a list \<times> 'a list) option" where
  "Array_swap capacity this other = swap_arrays capacity 0 this other"

section \<open>The linear deque \<^verbatim>\<open>containers::Deque\<close>\<close>

text \<open>
  \<^verbatim>\<open>Deque<Type, capacity>\<close> has the members \<^verbatim>\<open>elements\<close> (a \<^verbatim>\<open>utils::Array\<close>) and
  \<^verbatim>\<open>element_count\<close>.  The template parameter \<^verbatim>\<open>capacity\<close> is an argument of the functions
  that use it, and the macro \<^verbatim>\<open>CONTAINER_SAFETY\<close> is the Boolean argument \<open>safety\<close>.
  The field \<open>destroyed\<close> is a trace, not a member: it lists, in order, the slots on which
  the code has called the destructor \<^verbatim>\<open>~value_type()\<close>.  Iterators of \<^verbatim>\<open>Deque\<close> are pointers
  into \<^verbatim>\<open>elements\<close>, here the offset from the first slot.
\<close>

record 'a Deque =
  elements :: "'a list"
  element_count :: size_t
  destroyed :: "size_t list"

definition Deque_get_first_index :: size_t where
  "Deque_get_first_index = 0"

definition Deque_get_last_index :: "'a Deque \<Rightarrow> size_t" where
  "Deque_get_last_index d = element_count d - 1"

definition Deque_get_begin_index :: size_t where
  "Deque_get_begin_index = 0"

definition Deque_get_end_index :: "'a Deque \<Rightarrow> size_t" where
  "Deque_get_end_index d = element_count d"

definition Deque_empty :: "'a Deque \<Rightarrow> bool" where
  "Deque_empty d = (element_count d = 0)"

definition Deque_size :: "'a Deque \<Rightarrow> size_t" where
  "Deque_size d = element_count d"

definition Deque_max_size :: "size_t \<Rightarrow> size_t" where
  "Deque_max_size capacity = capacity"

text \<open>\<^verbatim>\<open>front()\<close> and \<^verbatim>\<open>back()\<close> return references and have no \<^verbatim>\<open>CONTAINER_SAFETY\<close> branch.\<close>

definition Deque_front :: "'a Deque \<Rightarrow> size_t option" where
  "Deque_front d = Array_ref (elements d) Deque_get_first_index"

definition Deque_back :: "'a Deque \<Rightarrow> size_t option" where
  "Deque_back d = Array_ref (elements d) (Deque_get_last_index d)"

definition Deque_at :: "'a Deque \<Rightarrow> size_t \<Rightarrow> 'a option" where
  "Deque_at d index = Array_read (elements d) index"

definition Deque_begin :: "'a Deque \<Rightarrow> size_t" where
  "Deque_begin d = Deque_get_begin_index"

definition Deque_end :: "'a Deque \<Rightarrow> size_t" where
  "Deque_end d = Deque_get_end_index d"

text \<open>
  Front-to-back iteration, \<^verbatim>\<open>for(auto it = d.begin(); it != d.end(); ++it)\<close> reading
  \<^verbatim>\<open>*it\<close>: the element sequence that a caller observes.
\<close>

function Deque_iterate :: "'a Deque \<Rightarrow> size_t \<Rightarrow> size_t \<Rightarrow> 'a list option" where
  "Deque_iterate d it end_iterator =
     (if it \<noteq> end_iterator then
        do {
          x \<leftarrow> Array_read (elements d) it;
          xs \<leftarrow> Deque_iterate d (it + 1) end_iterator;
          Some (x # xs)
        }
      else Some [])"
  by pat_completeness auto
termination
proof (relation "measure (\<lambda>(d, it, end_iterator). unat (end_iterator - it))")
  show "wf (measure (\<lambda>(d :: 'a Deque, it :: size_t, end_iterator :: size_t).
    unat (end_iterator - it)))"
    by simp
next
  fix d :: "'a Deque" and it end_iterator :: size_t and x
  assume "it \<noteq> end_iterator"
  then have "end_iterator - it \<noteq> 0"
    by simp
  then have "unat (end_iterator - it - 1) < unat (end_iterator - it)"
    by (rule measure_unat)
  then show "((d, it + 1, end_iterator), (d, it, end_iterator))
      \<in> measure (\<lambda>(d, it, end_iterator). unat (end_iterator - it))"
    by (simp add: diff_diff_eq add.commute)
qed

declare Deque_iterate.simps [simp del]

definition Deque_contents :: "'a Deque \<Rightarrow> 'a list option" where
  "Deque_contents d = Deque_iterate d (Deque_begin d) (Deque_end d)"

text \<open>
  \<^verbatim>\<open>push_back\<close> (the copying and the moving overload do the same here) and
  \<^verbatim>\<open>emplace_back\<close>, which also returns a reference to the new element.  On the
  \<^verbatim>\<open>CONTAINER_SAFETY\<close> path \<^verbatim>\<open>emplace_back\<close> returns without a value: no reference, the
  inner \<open>None\<close>.
\<close>

definition Deque_push_back :: "bool \<Rightarrow> size_t \<Rightarrow> 'a Deque \<Rightarrow> 'a \<Rightarrow> 'a Deque option" where
  "Deque_push_back safety capacity d v =
     (if safety \<and> Deque_size d \<ge> Deque_max_size capacity then Some d
      else do {
        es \<leftarrow> Array_write (elements d) (element_count d) v;
        Some (d\<lparr>elements := es, element_count := element_count d + 1\<rparr>)
      })"

definition Deque_emplace_back ::
  "bool \<Rightarrow> size_t \<Rightarrow> 'a Deque \<Rightarrow> 'a \<Rightarrow> ('a Deque \<times> size_t option) option" where
  "Deque_emplace_back safety capacity d v =
     (if safety \<and> Deque_size d \<ge> Deque_max_size capacity then Some (d, None)
      else do {
        let element_index = element_count d;
        es \<leftarrow> Array_write (elements d) element_index v;
        let d' = d\<lparr>elements := es, element_count := element_count d + 1\<rparr>;
        r \<leftarrow> Array_ref (elements d') element_index;
        Some (d', Some r)
      })"

text \<open>\<^verbatim>\<open>pop_back\<close> decreases the count, then destroys the slot it now names.\<close>

definition Deque_pop_back :: "bool \<Rightarrow> 'a Deque \<Rightarrow> 'a Deque option" where
  "Deque_pop_back safety d =
     (if safety \<and> Deque_empty d then Some d
      else do {
        let d' = d\<lparr>element_count := element_count d - 1\<rparr>;
        r \<leftarrow> Array_ref (elements d') (element_count d');
        Some (d'\<lparr>destroyed := destroyed d' @ [r]\<rparr>)
      })"

text \<open>
  The loop of \<^verbatim>\<open>push_front\<close> and \<^verbatim>\<open>emplace_front\<close>:
  \<^verbatim>\<open>for(size_type index = element_count; index > 0; --index)
      elements[index] = utils::move(elements[index - 1]);\<close>
\<close>

function Deque_move_back :: "'a list \<Rightarrow> size_t \<Rightarrow> 'a list option" where
  "Deque_move_back es index =
     (if index > 0 then
        do {
          x \<leftarrow> Array_read es (index - 1);
          es' \<leftarrow> Array_write es index x;
          Deque_move_back es' (index - 1)
        }
      else Some es)"
  by pat_completeness auto
termination
proof (relation "measure (\<lambda>(es, index). unat index)")
  show "wf (measure (\<lambda>(es :: 'a list, index :: size_t). unat index))"
    by simp
next
  fix es :: "'a list" and index :: size_t and x xa
  assume "0 < index"
  then have "unat (index - 1) < unat index"
    by unat_arith
  then show "((xa, index - 1), (es, index)) \<in> measure (\<lambda>(es, index). unat index)"
    by simp
qed

declare Deque_move_back.simps [simp del]

definition Deque_push_front :: "bool \<Rightarrow> size_t \<Rightarrow> 'a Deque \<Rightarrow> 'a \<Rightarrow> 'a Deque option" where
  "Deque_push_front safety capacity d v =
     (if safety \<and> Deque_size d \<ge> Deque_max_size capacity then Some d
      else do {
        es \<leftarrow> Deque_move_back (elements d) (element_count d);
        es' \<leftarrow> Array_write es 0 v;
        Some (d\<lparr>elements := es', element_count := element_count d + 1\<rparr>)
      })"

definition Deque_emplace_front ::
  "bool \<Rightarrow> size_t \<Rightarrow> 'a Deque \<Rightarrow> 'a \<Rightarrow> ('a Deque \<times> size_t option) option" where
  "Deque_emplace_front safety capacity d v =
     (if safety \<and> Deque_size d \<ge> Deque_max_size capacity then Some (d, None)
      else do {
        es \<leftarrow> Deque_move_back (elements d) (element_count d);
        es' \<leftarrow> Array_write es 0 v;
        let d' = d\<lparr>elements := es', element_count := element_count d + 1\<rparr>;
        r \<leftarrow> Array_ref (elements d') 0;
        Some (d', Some r)
      })"

text \<open>
  The loop of \<^verbatim>\<open>pop_front\<close>:
  \<^verbatim>\<open>for(size_type index = 0; index < element_count; ++index)
      elements[index] = utils::move(elements[index + 1]);\<close>
\<close>

function Deque_move_forward :: "'a list \<Rightarrow> size_t \<Rightarrow> size_t \<Rightarrow> 'a list option" where
  "Deque_move_forward es count index =
     (if index < count then
        do {
          x \<leftarrow> Array_read es (index + 1);
          es' \<leftarrow> Array_write es index x;
          Deque_move_forward es' count (index + 1)
        }
      else Some es)"
  by pat_completeness auto
termination
proof (relation "measure (\<lambda>(es, count, index). unat count - unat index)")
  show "wf (measure (\<lambda>(es :: 'a list, count :: size_t, index :: size_t).
    unat count - unat index))"
    by simp
next
  fix es :: "'a list" and count index :: size_t and x xa
  assume "index < count"
  then have "unat count - unat (index + 1) < unat count - unat index"
    by unat_arith
  then show "((xa, count, index + 1), (es, count, index))
      \<in> measure (\<lambda>(es, count, index). unat count - unat index)"
    by simp
qed

declare Deque_move_forward.simps [simp del]

definition Deque_pop_front :: "bool \<Rightarrow> 'a Deque \<Rightarrow> 'a Deque option" where
  "Deque_pop_front safety d =
     (if safety \<and> Deque_empty d then Some d
      else do {
        es \<leftarrow> Deque_move_forward (elements d) (element_count d) 0;
        Some (d\<lparr>elements := es, element_count := element_count d - 1\<rparr>)
      })"

text \<open>
  \<^verbatim>\<open>erase\<close>.  Its loop is
  \<^verbatim>\<open>while(next != end_iterator) { *current = utils::move(*next); ++current; ++next; }\<close>
  The function is declared to return an iterator and has no statement that returns one, so
  the model returns the container only.
\<close>

function Deque_erase_loop :: "'a list \<Rightarrow> size_t \<Rightarrow> size_t \<Rightarrow> size_t \<Rightarrow> 'a list option" where
  "Deque_erase_loop es current next end_iterator =
     (if next \<noteq> end_iterator then
        do {
          x \<leftarrow> Array_read es next;
          es' \<leftarrow> Array_write es current x;
          Deque_erase_loop es' (current + 1) (next + 1) end_iterator
        }
      else Some es)"
  by pat_completeness auto
termination
proof (relation "measure (\<lambda>(es, current, next, end_iterator). unat (end_iterator - next))")
  show "wf (measure (\<lambda>(es :: 'a list, current :: size_t, next :: size_t,
    end_iterator :: size_t). unat (end_iterator - next)))"
    by simp
next
  fix es :: "'a list" and current nxt end_iterator :: size_t and x xa
  assume "nxt \<noteq> end_iterator"
  then have "end_iterator - nxt \<noteq> 0"
    by simp
  then have "unat (end_iterator - nxt - 1) < unat (end_iterator - nxt)"
    by (rule measure_unat)
  then show "((xa, current + 1, nxt + 1, end_iterator), (es, current, nxt, end_iterator))
      \<in> measure (\<lambda>(es, current, next, end_iterator). unat (end_iterator - next))"
    by (simp add: diff_diff_eq add.commute)
qed

declare Deque_erase_loop.simps [simp del]

definition Deque_erase :: "bool \<Rightarrow> 'a Deque \<Rightarrow> size_t \<Rightarrow> 'a Deque option" where
  "Deque_erase safety d element_iterator =
     (if safety \<and> Deque_empty d then Some d
      else if safety \<and> element_iterator = Deque_end d then Some d
      else do {
        es \<leftarrow> Deque_erase_loop (elements d) element_iterator (element_iterator + 1) (Deque_end d);
        Some (d\<lparr>elements := es, element_count := element_count d - 1\<rparr>)
      })"

text \<open>
  \<^verbatim>\<open>clear\<close>: \<^verbatim>\<open>for(size_type index = get_begin_index(); index < get_end_index(); ++index)
      elements[index].~value_type();\<close>, then the count is set to zero.
\<close>

function Deque_clear_loop :: "'a Deque \<Rightarrow> size_t \<Rightarrow> 'a Deque option" where
  "Deque_clear_loop d index =
     (if index < Deque_get_end_index d then
        do {
          r \<leftarrow> Array_ref (elements d) index;
          Deque_clear_loop (d\<lparr>destroyed := destroyed d @ [r]\<rparr>) (index + 1)
        }
      else Some d)"
  by pat_completeness auto
termination
proof (relation "measure (\<lambda>(d, index). unat (element_count d) - unat index)")
  show "wf (measure (\<lambda>(d :: 'a Deque, index :: size_t). unat (element_count d) - unat index))"
    by simp
next
  fix d :: "'a Deque" and index :: size_t and x
  assume "index < Deque_get_end_index d"
  then have "unat (element_count d) - unat (index + 1) < unat (element_count d) - unat index"
    unfolding Deque_get_end_index_def by unat_arith
  then show "((d\<lparr>destroyed := destroyed d @ [x]\<rparr>, index + 1), (d, index))
      \<in> measure (\<lambda>(d, index). unat (element_count d) - unat index)"
    by simp
qed

declare Deque_clear_loop.simps [simp del]

definition Deque_clear :: "'a Deque \<Rightarrow> 'a Deque option" where
  "Deque_clear d =
     do {
       d' \<leftarrow> Deque_clear_loop d Deque_get_begin_index;
       Some (d'\<lparr>element_count := 0\<rparr>)
     }"

text \<open>\<^verbatim>\<open>swap\<close>: the whole body is \<^verbatim>\<open>swap(this->elements, other.elements);\<close>\<close>

definition Deque_swap :: "size_t \<Rightarrow> 'a Deque \<Rightarrow> 'a Deque \<Rightarrow> ('a Deque \<times> 'a Deque) option" where
  "Deque_swap capacity this other =
     do {
       (es, es') \<leftarrow> Array_swap capacity (elements this) (elements other);
       Some (this\<lparr>elements := es\<rparr>, other\<lparr>elements := es'\<rparr>)
     }"

section \<open>The circular deque \<^verbatim>\<open>containers::CircularDeque\<close>\<close>

text \<open>
  \<^verbatim>\<open>CircularDeque<Type, capacity>\<close> has the members \<^verbatim>\<open>elements\<close>, \<^verbatim>\<open>element_count\<close> and
  \<^verbatim>\<open>first_index\<close>; the record extends the one of \<^verbatim>\<open>Deque\<close> so that the first two keep
  their names.  All index arithmetic is \<^verbatim>\<open>size_t\<close> arithmetic followed by
  \<^verbatim>\<open>% capacity\<close>; the remainder of a division by zero is undefined.
\<close>

record 'a CircularDeque = "'a Deque" +
  first_index :: size_t

definition size_mod :: "size_t \<Rightarrow> size_t \<Rightarrow> size_t option" where
  "size_mod a b = (if b = 0 then None else Some (a mod b))"

definition CircularDeque_offset_index :: "size_t \<Rightarrow> size_t \<Rightarrow> size_t \<Rightarrow> size_t option" where
  "CircularDeque_offset_index capacity index offset = size_mod (index + offset) capacity"

definition CircularDeque_adjust_index ::
  "size_t \<Rightarrow> 'a CircularDeque \<Rightarrow> size_t \<Rightarrow> size_t option" where
  "CircularDeque_adjust_index capacity d index = size_mod (first_index d + index) capacity"

definition CircularDeque_get_first_index :: "'a CircularDeque \<Rightarrow> size_t" where
  "CircularDeque_get_first_index d = first_index d"

definition CircularDeque_get_last_index :: "size_t \<Rightarrow> 'a CircularDeque \<Rightarrow> size_t option" where
  "CircularDeque_get_last_index capacity d =
     CircularDeque_adjust_index capacity d (element_count d - 1)"

definition CircularDeque_get_begin_index :: "'a CircularDeque \<Rightarrow> size_t" where
  "CircularDeque_get_begin_index d = first_index d"

definition CircularDeque_get_end_index :: "size_t \<Rightarrow> 'a CircularDeque \<Rightarrow> size_t option" where
  "CircularDeque_get_end_index capacity d =
     CircularDeque_adjust_index capacity d (element_count d)"

definition CircularDeque_get_next_index :: "size_t \<Rightarrow> size_t \<Rightarrow> size_t option" where
  "CircularDeque_get_next_index capacity index = size_mod (index + 1) capacity"

definition CircularDeque_get_previous_index :: "size_t \<Rightarrow> size_t \<Rightarrow> size_t option" where
  "CircularDeque_get_previous_index capacity index = size_mod (index + (capacity - 1)) capacity"

definition CircularDeque_empty :: "'a CircularDeque \<Rightarrow> bool" where
  "CircularDeque_empty d = (element_count d = 0)"

definition CircularDeque_size :: "'a CircularDeque \<Rightarrow> size_t" where
  "CircularDeque_size d = element_count d"

definition CircularDeque_max_size :: "size_t \<Rightarrow> size_t" where
  "CircularDeque_max_size capacity = capacity"

text \<open>
  \<^verbatim>\<open>front()\<close>, \<^verbatim>\<open>back()\<close> and \<^verbatim>\<open>operator[]\<close> return a reference (the slot) and have no
  \<^verbatim>\<open>CONTAINER_SAFETY\<close> branch; \<^verbatim>\<open>data()\<close> is \<^verbatim>\<open>&this->elements[0]\<close>.
\<close>

definition CircularDeque_front :: "'a CircularDeque \<Rightarrow> size_t option" where
  "CircularDeque_front d = Array_ref (elements d) (CircularDeque_get_first_index d)"

definition CircularDeque_back :: "size_t \<Rightarrow> 'a CircularDeque \<Rightarrow> size_t option" where
  "CircularDeque_back capacity d =
     do {
       last_index \<leftarrow> CircularDeque_get_last_index capacity d;
       Array_ref (elements d) last_index
     }"


definition CircularDeque_index :: "size_t \<Rightarrow> 'a CircularDeque \<Rightarrow> size_t \<Rightarrow> size_t option" where
  "CircularDeque_index capacity d index =
     do {
       i \<leftarrow> CircularDeque_adjust_index capacity d index;
       Array_ref (elements d) i
     }"

definition CircularDeque_at :: "size_t \<Rightarrow> 'a CircularDeque \<Rightarrow> size_t \<Rightarrow> 'a option" where
  "CircularDeque_at capacity d index =
     do {
       r \<leftarrow> CircularDeque_index capacity d index;
       Array_read (elements d) r
     }"

text \<open>
  Iterators are \<^verbatim>\<open>IndexIterator<CircularDeque>\<close>: a pointer to the container and a logical
  index.  Every iterator below belongs to the deque it is used with, so it is its index:
  \<^verbatim>\<open>make_begin\<close> gives index 0, \<^verbatim>\<open>make_end\<close> gives \<^verbatim>\<open>utils::size(container)\<close>, \<^verbatim>\<open>++\<close> adds
  one, \<^verbatim>\<open>!=\<close> compares the indices and \<^verbatim>\<open>*it\<close> is \<^verbatim>\<open>container[index]\<close>.
\<close>

definition CircularDeque_begin :: "'a CircularDeque \<Rightarrow> size_t" where
  "CircularDeque_begin d = 0"

definition CircularDeque_end :: "'a CircularDeque \<Rightarrow> size_t" where
  "CircularDeque_end d = CircularDeque_size d"

function CircularDeque_iterate ::
  "size_t \<Rightarrow> 'a CircularDeque \<Rightarrow> size_t \<Rightarrow> size_t \<Rightarrow> 'a list option" where
  "CircularDeque_iterate capacity d it end_iterator =
     (if it \<noteq> end_iterator then
        do {
          x \<leftarrow> CircularDeque_at capacity d it;
          xs \<leftarrow> CircularDeque_iterate capacity d (it + 1) end_iterator;
          Some (x # xs)
        }
      else Some [])"
  by pat_completeness auto
termination
proof (relation "measure (\<lambda>(capacity, d, it, end_iterator). unat (end_iterator - it))")
  show "wf (measure (\<lambda>(capacity :: size_t, d :: 'a CircularDeque, it :: size_t,
    end_iterator :: size_t). unat (end_iterator - it)))"
    by simp
next
  fix capacity :: size_t and d :: "'a CircularDeque" and it end_iterator :: size_t and x
  assume "it \<noteq> end_iterator"
  then have "end_iterator - it \<noteq> 0"
    by simp
  then have "unat (end_iterator - it - 1) < unat (end_iterator - it)"
    by (rule measure_unat)
  then show "((capacity, d, it + 1, end_iterator), (capacity, d, it, end_iterator))
      \<in> measure (\<lambda>(capacity, d, it, end_iterator). unat (end_iterator - it))"
    by (simp add: diff_diff_eq add.commute)
qed

declare CircularDeque_iterate.simps [simp del]

definition CircularDeque_contents :: "size_t \<Rightarrow> 'a CircularDeque \<Rightarrow> 'a list option" where
  "CircularDeque_contents capacity d =
     CircularDeque_iterate capacity d (CircularDeque_begin d) (CircularDeque_end d)"

definition CircularDeque_push_back ::
  "bool \<Rightarrow> size_t \<Rightarrow> 'a CircularDeque \<Rightarrow> 'a \<Rightarrow> 'a CircularDeque option" where
  "CircularDeque_push_back safety capacity d v =
     (if safety \<and> CircularDeque_size d \<ge> CircularDeque_max_size capacity then Some d
      else do {
        end_index \<leftarrow> CircularDeque_get_end_index capacity d;
        es \<leftarrow> Array_write (elements d) end_index v;
        Some (d\<lparr>elements := es, element_count := element_count d + 1\<rparr>)
      })"

definition CircularDeque_emplace_back ::
  "bool \<Rightarrow> size_t \<Rightarrow> 'a CircularDeque \<Rightarrow> 'a \<Rightarrow> ('a CircularDeque \<times> size_t option) option"
  where
  "CircularDeque_emplace_back safety capacity d v =
     (if safety \<and> CircularDeque_size d \<ge> CircularDeque_max_size capacity then Some (d, None)
      else do {
        end_index \<leftarrow> CircularDeque_get_end_index capacity d;
        es \<leftarrow> Array_write (elements d) end_index v;
        let d' = d\<lparr>elements := es, element_count := element_count d + 1\<rparr>;
        r \<leftarrow> Array_ref (elements d') end_index;
        Some (d', Some r)
      })"

definition CircularDeque_pop_back ::
  "bool \<Rightarrow> size_t \<Rightarrow> 'a CircularDeque \<Rightarrow> 'a CircularDeque option" where
  "CircularDeque_pop_back safety capacity d =
     (if safety \<and> CircularDeque_empty d then Some d
      else do {
        last_index \<leftarrow> CircularDeque_get_last_index capacity d;
        r \<leftarrow> Array_ref (elements d) last_index;
        Some (d\<lparr>destroyed := destroyed d @ [r], element_count := element_count d - 1\<rparr>)
      })"

definition CircularDeque_push_front ::
  "bool \<Rightarrow> size_t \<Rightarrow> 'a CircularDeque \<Rightarrow> 'a \<Rightarrow> 'a CircularDeque option" where
  "CircularDeque_push_front safety capacity d v =
     (if safety \<and> CircularDeque_size d \<ge> CircularDeque_max_size capacity then Some d
      else do {
        i \<leftarrow> CircularDeque_get_previous_index capacity (first_index d);
        let d' = d\<lparr>first_index := i\<rparr>;
        es \<leftarrow> Array_write (elements d') (first_index d') v;
        Some (d'\<lparr>elements := es, element_count := element_count d' + 1\<rparr>)
      })"

definition CircularDeque_emplace_front ::
  "bool \<Rightarrow> size_t \<Rightarrow> 'a CircularDeque \<Rightarrow> 'a \<Rightarrow> ('a CircularDeque \<times> size_t option) option"
  where
  "CircularDeque_emplace_front safety capacity d v =
     (if safety \<and> CircularDeque_size d \<ge> CircularDeque_max_size capacity then Some (d, None)
      else do {
        i \<leftarrow> CircularDeque_get_previous_index capacity (first_index d);
        let d' = d\<lparr>first_index := i\<rparr>;
        es \<leftarrow> Array_write (elements d') (first_index d') v;
        let d'' = d'\<lparr>elements := es, element_count := element_count d' + 1\<rparr>;
        r \<leftarrow> Array_ref (elements d'') (first_index d'');
        Some (d'', Some r)
      })"

definition CircularDeque_pop_front ::
  "bool \<Rightarrow> size_t \<Rightarrow> 'a CircularDeque \<Rightarrow> 'a CircularDeque option" where
  "CircularDeque_pop_front safety capacity d =
     (if safety \<and> CircularDeque_empty d then Some d
      else do {
        r \<leftarrow> Array_ref (elements d) (first_index d);
        let d' = d\<lparr>destroyed := destroyed d @ [r]\<rparr>;
        i \<leftarrow> CircularDeque_get_next_index capacity (first_index d');
        Some (d'\<lparr>first_index := i, element_count := element_count d' - 1\<rparr>)
      })"

text \<open>
  \<^verbatim>\<open>erase\<close>, with the same loop as in \<^verbatim>\<open>Deque\<close> over index iterators, and as there without
  a statement that returns the iterator.
\<close>

function CircularDeque_erase_loop ::
  "size_t \<Rightarrow> 'a CircularDeque \<Rightarrow> size_t \<Rightarrow> size_t \<Rightarrow> size_t \<Rightarrow> 'a CircularDeque option"
  where
  "CircularDeque_erase_loop capacity d current next end_iterator =
     (if next \<noteq> end_iterator then
        do {
          x \<leftarrow> CircularDeque_at capacity d next;
          r \<leftarrow> CircularDeque_index capacity d current;
          es \<leftarrow> Array_write (elements d) r x;
          CircularDeque_erase_loop capacity (d\<lparr>elements := es\<rparr>) (current + 1) (next + 1)
            end_iterator
        }
      else Some d)"
  by pat_completeness auto
termination
proof (relation
    "measure (\<lambda>(capacity, d, current, next, end_iterator). unat (end_iterator - next))")
  show "wf (measure (\<lambda>(capacity :: size_t, d :: 'a CircularDeque, current :: size_t,
    next :: size_t, end_iterator :: size_t). unat (end_iterator - next)))"
    by simp
next
  fix capacity :: size_t and d :: "'a CircularDeque" and current nxt end_iterator :: size_t
    and x xa xb
  assume "nxt \<noteq> end_iterator"
  then have "end_iterator - nxt \<noteq> 0"
    by simp
  then have "unat (end_iterator - nxt - 1) < unat (end_iterator - nxt)"
    by (rule measure_unat)
  then show "((capacity, d\<lparr>elements := xb\<rparr>, current + 1, nxt + 1, end_iterator),
      (capacity, d, current, nxt, end_iterator))
      \<in> measure (\<lambda>(capacity, d, current, next, end_iterator). unat (end_iterator - next))"
    by (simp add: diff_diff_eq add.commute)
qed

declare CircularDeque_erase_loop.simps [simp del]

definition CircularDeque_erase ::
  "bool \<Rightarrow> size_t \<Rightarrow> 'a CircularDeque \<Rightarrow> size_t \<Rightarrow> 'a CircularDeque option" where
  "CircularDeque_erase safety capacity d element_iterator =
     (if safety \<and> CircularDeque_empty d then Some d
      else if safety \<and> element_iterator = CircularDeque_end d then Some d
      else do {
        d' \<leftarrow> CircularDeque_erase_loop capacity d element_iterator (element_iterator + 1)
          (CircularDeque_end d);
        Some (d'\<lparr>element_count := element_count d' - 1\<rparr>)
      })"

text \<open>
  \<^verbatim>\<open>clear\<close>:
  \<^verbatim>\<open>for(size_type index = get_begin_index(); index != get_end_index(); ++index)
      this->elements[this->adjust_index(index)].~value_type();\<close>
  then \<^verbatim>\<open>element_count = 0\<close> and \<^verbatim>\<open>first_index = 0\<close>.  The counter \<^verbatim>\<open>index\<close> is a \<^verbatim>\<open>size_t\<close>:
  incrementing the largest value gives zero.
\<close>

function CircularDeque_clear_loop ::
  "size_t \<Rightarrow> 'a CircularDeque \<Rightarrow> size_t \<Rightarrow> 'a CircularDeque option" where
  "CircularDeque_clear_loop capacity d index =
     do {
       end_index \<leftarrow> CircularDeque_get_end_index capacity d;
       if index \<noteq> end_index then
         do {
           i \<leftarrow> CircularDeque_adjust_index capacity d index;
           r \<leftarrow> Array_ref (elements d) i;
           CircularDeque_clear_loop capacity (d\<lparr>destroyed := destroyed d @ [r]\<rparr>) (index + 1)
         }
       else Some d
     }"
  by pat_completeness auto
termination
proof (relation "measure (\<lambda>(capacity, d, index).
    unat ((first_index d + element_count d) mod capacity - index))")
  show "wf (measure (\<lambda>(capacity :: size_t, d :: 'a CircularDeque, index :: size_t).
    unat ((first_index d + element_count d) mod capacity - index)))"
    by simp
next
  fix capacity :: size_t and d :: "'a CircularDeque" and index x xa xb :: size_t
  assume e: "CircularDeque_get_end_index capacity d = Some x" and ne: "index \<noteq> x"
  from e have x: "x = (first_index d + element_count d) mod capacity"
    by (simp add: CircularDeque_get_end_index_def CircularDeque_adjust_index_def size_mod_def
        split: if_splits)
  from ne have "x - index \<noteq> 0"
    by simp
  then have "unat (x - index - 1) < unat (x - index)"
    by (rule measure_unat)
  then show "((capacity, d\<lparr>destroyed := destroyed d @ [xb]\<rparr>, index + 1), (capacity, d, index))
      \<in> measure (\<lambda>(capacity, d, index).
        unat ((first_index d + element_count d) mod capacity - index))"
    by (simp add: x diff_diff_eq add.commute)
qed

declare CircularDeque_clear_loop.simps [simp del]

definition CircularDeque_clear :: "size_t \<Rightarrow> 'a CircularDeque \<Rightarrow> 'a CircularDeque option" where
  "CircularDeque_clear capacity d =
     do {
       d' \<leftarrow> CircularDeque_clear_loop capacity d (CircularDeque_get_begin_index d);
       Some (d'\<lparr>element_count := 0, first_index := 0\<rparr>)
     }"

definition CircularDeque_swap ::
  "size_t \<Rightarrow> 'a CircularDeque \<Rightarrow> 'a CircularDeque \<Rightarrow> ('a CircularDeque \<times> 'a CircularDeque) option"
  where
  "CircularDeque_swap capacity this other =
     do {
       (es, es') \<leftarrow> Array_swap capacity (elements this) (elements other);
       Some (this\<lparr>elements := es\<rparr>, other\<lparr>elements := es'\<rparr>)
     }"

section \<open>Adapters\<close>

text \<open>
  \<^verbatim>\<open>Stack<Type, capacity, Container>\<close> and \<^verbatim>\<open>Queue<Type, capacity, Container>\<close> have the
  single member \<^verbatim>\<open>container\<close> and forward every call to it.  The default container is
  \<^verbatim>\<open>Deque\<close>; \<^verbatim>\<open>FastQueue\<close> is the alias for a \<^verbatim>\<open>Queue\<close> over \<^verbatim>\<open>CircularDeque\<close>, and
  \<open>CircularStack\<close> names here the instance of \<^verbatim>\<open>Stack\<close> over \<^verbatim>\<open>CircularDeque\<close>.
\<close>

datatype 'c Stack = Stack (Stack_container: 'c)

datatype 'c Queue = Queue (Queue_container: 'c)

definition Stack_push :: "bool \<Rightarrow> size_t \<Rightarrow> 'a Deque Stack \<Rightarrow> 'a \<Rightarrow> 'a Deque Stack option" where
  "Stack_push safety capacity s v =
     map_option Stack (Deque_push_back safety capacity (Stack_container s) v)"

definition Stack_pop :: "bool \<Rightarrow> 'a Deque Stack \<Rightarrow> 'a Deque Stack option" where
  "Stack_pop safety s = map_option Stack (Deque_pop_back safety (Stack_container s))"

definition CircularStack_push ::
  "bool \<Rightarrow> size_t \<Rightarrow> 'a CircularDeque Stack \<Rightarrow> 'a \<Rightarrow> 'a CircularDeque Stack option" where
  "CircularStack_push safety capacity s v =
     map_option Stack (CircularDeque_push_back safety capacity (Stack_container s) v)"

definition CircularStack_pop ::
  "bool \<Rightarrow> size_t \<Rightarrow> 'a CircularDeque Stack \<Rightarrow> 'a CircularDeque Stack option" where
  "CircularStack_pop safety capacity s =
     map_option Stack (CircularDeque_pop_back safety capacity (Stack_container s))"

definition Queue_push :: "bool \<Rightarrow> size_t \<Rightarrow> 'a Deque Queue \<Rightarrow> 'a \<Rightarrow> 'a Deque Queue option" where
  "Queue_push safety capacity q v =
     map_option Queue (Deque_push_back safety capacity (Queue_container q) v)"

definition Queue_pop :: "bool \<Rightarrow> 'a Deque Queue \<Rightarrow> 'a Deque Queue option" where
  "Queue_pop safety q = map_option Queue (Deque_pop_front safety (Queue_container q))"

definition FastQueue_push ::
  "bool \<Rightarrow> size_t \<Rightarrow> 'a CircularDeque Queue \<Rightarrow> 'a \<Rightarrow> 'a CircularDeque Queue option" where
  "FastQueue_push safety capacity q v =
     map_option Queue (CircularDeque_push_back safety capacity (Queue_container q) v)"

definition FastQueue_pop ::
  "bool \<Rightarrow> size_t \<Rightarrow> 'a CircularDeque Queue \<Rightarrow> 'a CircularDeque Queue option" where
  "FastQueue_pop safety capacity q =
     map_option Queue (CircularDeque_pop_front safety capacity (Queue_container q))"

section \<open>States, invariants and runs\<close>

text \<open>
  A freshly constructed deque: the member initialisers set \<^verbatim>\<open>element_count\<close> and
  \<^verbatim>\<open>first_index\<close> to zero; the \<open>capacity\<close> slots of \<^verbatim>\<open>elements\<close> hold whatever the default
  initialisation of \<^verbatim>\<open>Type\<close> leaves there.
\<close>

definition Deque_init :: "'a list \<Rightarrow> 'a Deque" where
  "Deque_init es = \<lparr>elements = es, element_count = 0, destroyed = []\<rparr>"

definition CircularDeque_init :: "'a list \<Rightarrow> 'a CircularDeque" where
  "CircularDeque_init es = \<lparr>elements = es, element_count = 0, destroyed = [], first_index = 0\<rparr>"

definition Deque_inv :: "size_t \<Rightarrow> 'a Deque \<Rightarrow> bool" where
  "Deque_inv capacity d \<longleftrightarrow> length (elements d) = unat capacity \<and> element_count d \<le> capacity"

definition CircularDeque_inv :: "size_t \<Rightarrow> 'a CircularDeque \<Rightarrow> bool" where
  "CircularDeque_inv capacity d \<longleftrightarrow>
     capacity \<noteq> 0 \<and> length (elements d) = unat capacity
     \<and> element_count d \<le> capacity \<and> first_index d < capacity"

text \<open>
  The slots of the live elements of a circular deque from front to back (logical index
  \<open>i\<close> lives in slot \<open>(first_index + i) mod capacity\<close>), and the elements they hold.
\<close>

definition CircularDeque_slots :: "size_t \<Rightarrow> 'a CircularDeque \<Rightarrow> nat list" where
  "CircularDeque_slots capacity d =
     map (\<lambda>i. (unat (first_index d) + i) mod unat capacity) [0..<unat (element_count d)]"

definition CircularDeque_list :: "size_t \<Rightarrow> 'a CircularDeque \<Rightarrow> 'a list" where
  "CircularDeque_list capacity d = map (\<lambda>s. elements d ! s) (CircularDeque_slots capacity d)"

text \<open>Pushing the values of a list one after the other, as the test programs do.\<close>

fun CircularDeque_push_back_all ::
  "bool \<Rightarrow> size_t \<Rightarrow> 'a CircularDeque \<Rightarrow> 'a list \<Rightarrow> 'a CircularDeque option" where
  "CircularDeque_push_back_all safety capacity d [] = Some d"
| "CircularDeque_push_back_all safety capacity d (v # vs) =
     do {
       d' \<leftarrow> CircularDeque_push_back safety capacity d v;
       CircularDeque_push_back_all safety capacity d' vs
     }"

fun CircularDeque_push_front_all ::
  "bool \<Rightarrow> size_t \<Rightarrow> 'a CircularDeque \<Rightarrow> 'a list \<Rightarrow> 'a CircularDeque option" where
  "CircularDeque_push_front_all safety capacity d [] = Some d"
| "CircularDeque_push_front_all safety capacity d (v # vs) =
     do {
       d' \<leftarrow> CircularDeque_push_front safety capacity d v;
       CircularDeque_push_front_all safety capacity d' vs
     }"

text \<open>
  \<^verbatim>\<open>Deque::pop_front\<close> as the compiled program runs it.  The last pass of its loop reads
  \<^verbatim>\<open>elements[element_count]\<close>.  On a full deque that is the object stored behind the array:
  the language leaves the read undefined (\<^verbatim>\<open>Deque_pop_front\<close> is \<open>None\<close> there), and the
  program performs it all the same, copies the value \<open>past\<close> that it finds there into the
  last slot, and goes on to decrease the count.  \<open>Deque_pop_front_run\<close> is
  \<^verbatim>\<open>Deque_pop_front\<close> on the array followed by one more cell, which holds \<open>past\<close> and which
  the loop reads and never writes.
\<close>

definition Deque_pop_front_run :: "bool \<Rightarrow> 'a \<Rightarrow> 'a Deque \<Rightarrow> 'a Deque option" where
  "Deque_pop_front_run safety past d =
     map_option (\<lambda>d'. d'\<lparr>elements := butlast (elements d')\<rparr>)
       (Deque_pop_front safety (d\<lparr>elements := elements d @ [past]\<rparr>))"

text \<open>
  The states that a deque takes in a program that starts from a fresh deque and calls
  each operation only when its documented precondition holds: a push or emplace when
  \<open>size() < capacity\<close>, a pop when \<open>size() > 0\<close>, \<open>erase\<close> with an iterator to an element.
  A \<^verbatim>\<open>pop_front\<close> of the linear deque is a step of \<open>Deque_pop_front_run\<close>, for every value
  \<open>past\<close> that the cell behind the array may hold, so that the runs that pop the front of
  a full deque are runs of the relation.  \<^verbatim>\<open>front()\<close>, \<^verbatim>\<open>back()\<close> and \<^verbatim>\<open>operator[]\<close> leave the
  deque as it is and return a reference to an element; the step \<open>assign\<close> is an assignment
  through the reference that \<^verbatim>\<open>operator[]\<close> returns for an index below \<open>size()\<close>.
\<close>

inductive Deque_reachable :: "bool \<Rightarrow> size_t \<Rightarrow> 'a Deque \<Rightarrow> bool"
  for safety :: bool and capacity :: size_t where
  init: "length es = unat capacity \<Longrightarrow> Deque_reachable safety capacity (Deque_init es)"
| push_back: "Deque_reachable safety capacity d \<Longrightarrow> Deque_size d < Deque_max_size capacity \<Longrightarrow>
    Deque_push_back safety capacity d v = Some d' \<Longrightarrow> Deque_reachable safety capacity d'"
| emplace_back: "Deque_reachable safety capacity d \<Longrightarrow> Deque_size d < Deque_max_size capacity \<Longrightarrow>
    Deque_emplace_back safety capacity d v = Some (d', r) \<Longrightarrow> Deque_reachable safety capacity d'"
| push_front: "Deque_reachable safety capacity d \<Longrightarrow> Deque_size d < Deque_max_size capacity \<Longrightarrow>
    Deque_push_front safety capacity d v = Some d' \<Longrightarrow> Deque_reachable safety capacity d'"
| emplace_front: "Deque_reachable safety capacity d \<Longrightarrow> Deque_size d < Deque_max_size capacity \<Longrightarrow>
    Deque_emplace_front safety capacity d v = Some (d', r) \<Longrightarrow> Deque_reachable safety capacity d'"
| pop_back: "Deque_reachable safety capacity d \<Longrightarrow> Deque_size d > 0 \<Longrightarrow>
    Deque_pop_back safety d = Some d' \<Longrightarrow> Deque_reachable safety capacity d'"
| pop_front: "Deque_reachable safety capacity d \<Longrightarrow> Deque_size d > 0 \<Longrightarrow>
    Deque_pop_front_run safety past d = Some d' \<Longrightarrow> Deque_reachable safety capacity d'"
| erase: "Deque_reachable safety capacity d \<Longrightarrow> element_iterator < Deque_end d \<Longrightarrow>
    Deque_erase safety d element_iterator = Some d' \<Longrightarrow> Deque_reachable safety capacity d'"
| clear: "Deque_reachable safety capacity d \<Longrightarrow>
    Deque_clear d = Some d' \<Longrightarrow> Deque_reachable safety capacity d'"
| swap_this: "Deque_reachable safety capacity d \<Longrightarrow> Deque_reachable safety capacity other \<Longrightarrow>
    Deque_swap capacity d other = Some (d', other') \<Longrightarrow> Deque_reachable safety capacity d'"
| swap_other: "Deque_reachable safety capacity d \<Longrightarrow> Deque_reachable safety capacity other \<Longrightarrow>
    Deque_swap capacity d other = Some (d', other') \<Longrightarrow> Deque_reachable safety capacity other'"
| assign: "Deque_reachable safety capacity d \<Longrightarrow> index < Deque_size d \<Longrightarrow>
    Array_write (elements d) index v = Some es \<Longrightarrow>
    Deque_reachable safety capacity (d\<lparr>elements := es\<rparr>)"

inductive CircularDeque_reachable :: "bool \<Rightarrow> size_t \<Rightarrow> 'a CircularDeque \<Rightarrow> bool"
  for safety :: bool and capacity :: size_t where
  init: "length es = unat capacity \<Longrightarrow>
    CircularDeque_reachable safety capacity (CircularDeque_init es)"
| push_back: "CircularDeque_reachable safety capacity d \<Longrightarrow>
    CircularDeque_size d < CircularDeque_max_size capacity \<Longrightarrow>
    CircularDeque_push_back safety capacity d v = Some d' \<Longrightarrow>
    CircularDeque_reachable safety capacity d'"
| emplace_back: "CircularDeque_reachable safety capacity d \<Longrightarrow>
    CircularDeque_size d < CircularDeque_max_size capacity \<Longrightarrow>
    CircularDeque_emplace_back safety capacity d v = Some (d', r) \<Longrightarrow>
    CircularDeque_reachable safety capacity d'"
| push_front: "CircularDeque_reachable safety capacity d \<Longrightarrow>
    CircularDeque_size d < CircularDeque_max_size capacity \<Longrightarrow>
    CircularDeque_push_front safety capacity d v = Some d' \<Longrightarrow>
    CircularDeque_reachable safety capacity d'"
| emplace_front: "CircularDeque_reachable safety capacity d \<Longrightarrow>
    CircularDeque_size d < CircularDeque_max_size capacity \<Longrightarrow>
    CircularDeque_emplace_front safety capacity d v = Some (d', r) \<Longrightarrow>
    CircularDeque_reachable safety capacity d'"
| pop_back: "CircularDeque_reachable safety capacity d \<Longrightarrow> CircularDeque_size d > 0 \<Longrightarrow>
    CircularDeque_pop_back safety capacity d = Some d' \<Longrightarrow>
    CircularDeque_reachable safety capacity d'"
| pop_front: "CircularDeque_reachable safety capacity d \<Longrightarrow> CircularDeque_size d > 0 \<Longrightarrow>
    CircularDeque_pop_front safety capacity d = Some d' \<Longrightarrow>
    CircularDeque_reachable safety capacity d'"
| erase: "CircularDeque_reachable safety capacity d \<Longrightarrow>
    element_iterator < CircularDeque_end d \<Longrightarrow>
    CircularDeque_erase safety capacity d element_iterator = Some d' \<Longrightarrow>
    CircularDeque_reachable safety capacity d'"
| clear: "CircularDeque_reachable safety capacity d \<Longrightarrow>
    CircularDeque_clear capacity d = Some d' \<Longrightarrow> CircularDeque_reachable safety capacity d'"
| swap_this: "CircularDeque_reachable safety capacity d \<Longrightarrow>
    CircularDeque_reachable safety capacity other \<Longrightarrow>
    CircularDeque_swap capacity d other = Some (d', other') \<Longrightarrow>
    CircularDeque_reachable safety capacity d'"
| swap_other: "CircularDeque_reachable safety capacity d \<Longrightarrow>
    CircularDeque_reachable safety capacity other \<Longrightarrow>
    CircularDeque_swap capacity d other = Some (d', other') \<Longrightarrow>
    CircularDeque_reachable safety capacity other'"
| assign: "CircularDeque_reachable safety capacity d \<Longrightarrow> index < CircularDeque_size d \<Longrightarrow>
    CircularDeque_index capacity d index = Some r \<Longrightarrow>
    Array_write (elements d) r v = Some es \<Longrightarrow>
    CircularDeque_reachable safety capacity (d\<lparr>elements := es\<rparr>)"

section \<open>Persistent memory\<close>

subsection \<open>The primitives of the platform\<close>

text \<open>
  The access primitives come from the platform header \<^verbatim>\<open><avr/eeprom.h>\<close>, which is not
  part of the repository; the definitions of this subsection follow the description that
  the spec gives of them.  The device is a list of cells addressed from 0, with a counter
  of the byte writes performed (the wear).  An address outside the device is undefined
  behaviour.
\<close>

record eeprom =
  cells :: "byte list"
  writes :: nat

text \<open>
  Modelled from the spec: \<^verbatim>\<open>eeprom_read_byte(addr)\<close>, absent from the repository, "reads
  exactly one byte" and "never mutates region state".
\<close>

definition eeprom_read_byte :: "eeprom \<Rightarrow> size_t \<Rightarrow> byte option" where
  "eeprom_read_byte e p = (if unat p < length (cells e) then Some (cells e ! unat p) else None)"

text \<open>
  Modelled from the spec: \<^verbatim>\<open>eeprom_write_byte(addr, value)\<close>, absent from the repository,
  is the "unconditional write of one byte"; every call consumes wear.
\<close>

definition eeprom_write_byte :: "eeprom \<Rightarrow> size_t \<Rightarrow> byte \<Rightarrow> eeprom option" where
  "eeprom_write_byte e p b =
     (if unat p < length (cells e)
      then Some (e\<lparr>cells := (cells e)[unat p := b], writes := writes e + 1\<rparr>)
      else None)"

text \<open>
  Modelled from the spec: \<^verbatim>\<open>eeprom_update_byte(addr, value)\<close>, absent from the repository,
  "reads the byte first, writes only if different".
\<close>

definition eeprom_update_byte :: "eeprom \<Rightarrow> size_t \<Rightarrow> byte \<Rightarrow> eeprom option" where
  "eeprom_update_byte e p b =
     do {
       old \<leftarrow> eeprom_read_byte e p;
       if old = b then Some e else eeprom_write_byte e p b
     }"

text \<open>
  Modelled from the spec: \<^verbatim>\<open>eeprom_read_block(dst, src, n)\<close>, absent from the repository,
  copies \<open>n\<close> bytes from the device address \<open>src\<close> into RAM; the result is the byte sequence
  stored at \<open>dst\<close>.
\<close>

fun eeprom_read_block :: "eeprom \<Rightarrow> size_t \<Rightarrow> nat \<Rightarrow> byte list option" where
  "eeprom_read_block e src 0 = Some []"
| "eeprom_read_block e src (Suc n) =
     do {
       b \<leftarrow> eeprom_read_byte e src;
       bs \<leftarrow> eeprom_read_block e (src + 1) n;
       Some (b # bs)
     }"

text \<open>
  Modelled from the spec: \<^verbatim>\<open>eeprom_update_block(src, dst, n)\<close>, absent from the repository,
  is the "byte-wise update of a range": the first \<open>n\<close> bytes of the RAM object at \<open>src\<close> go
  to the device addresses from \<open>dst\<close> on, each by an update of one byte.  Reading past the
  RAM object is undefined.
\<close>

fun eeprom_update_block :: "eeprom \<Rightarrow> byte list \<Rightarrow> size_t \<Rightarrow> nat \<Rightarrow> eeprom option" where
  "eeprom_update_block e src dst 0 = Some e"
| "eeprom_update_block e [] dst (Suc n) = None"
| "eeprom_update_block e (b # src) dst (Suc n) =
     do {
       e' \<leftarrow> eeprom_update_byte e dst b;
       eeprom_update_block e' src (dst + 1) n
     }"

text \<open>
  The object representation of the 16-bit and 32-bit scalars of the target: least
  significant byte first.
\<close>

definition bytes_of_word :: "16 word \<Rightarrow> byte list" where
  "bytes_of_word w = [ucast w, ucast (drop_bit 8 w)]"

definition bytes_of_dword :: "32 word \<Rightarrow> byte list" where
  "bytes_of_dword w = [ucast w, ucast (drop_bit 8 w), ucast (drop_bit 16 w), ucast (drop_bit 24 w)]"

fun word_of_bytes :: "byte list \<Rightarrow> 16 word option" where
  "word_of_bytes [b0, b1] = Some (word_cat b1 b0)"
| "word_of_bytes bs = None"

fun dword_of_bytes :: "byte list \<Rightarrow> 32 word option" where
  "dword_of_bytes [b0, b1, b2, b3] =
     Some (word_cat (word_cat b3 b2 :: 16 word) (word_cat b1 b0 :: 16 word))"
| "dword_of_bytes bs = None"

text \<open>
  Modelled from the spec: the width-native reads \<^verbatim>\<open>eeprom_read_word\<close>,
  \<^verbatim>\<open>eeprom_read_dword\<close>, \<^verbatim>\<open>eeprom_read_float\<close> and \<^verbatim>\<open>eeprom_read_ptr\<close>, absent from the
  repository, are "fixed-width reads" of two or four bytes; a pointer of the target has
  16 bits, and a \<^verbatim>\<open>float\<close> is its 32-bit pattern.
\<close>

definition eeprom_read_word :: "eeprom \<Rightarrow> size_t \<Rightarrow> 16 word option" where
  "eeprom_read_word e p = do { bs \<leftarrow> eeprom_read_block e p 2; word_of_bytes bs }"

definition eeprom_read_dword :: "eeprom \<Rightarrow> size_t \<Rightarrow> 32 word option" where
  "eeprom_read_dword e p = do { bs \<leftarrow> eeprom_read_block e p 4; dword_of_bytes bs }"

definition eeprom_read_float :: "eeprom \<Rightarrow> size_t \<Rightarrow> 32 word option" where
  "eeprom_read_float e p = eeprom_read_dword e p"

definition eeprom_read_ptr :: "eeprom \<Rightarrow> size_t \<Rightarrow> 16 word option" where
  "eeprom_read_ptr e p = eeprom_read_word e p"

text \<open>
  Modelled from the spec: the width-native updates \<^verbatim>\<open>eeprom_update_word\<close>,
  \<^verbatim>\<open>eeprom_update_dword\<close> and \<^verbatim>\<open>eeprom_update_float\<close>, absent from the repository, "exist
  only to reduce code size" and do what "the byte-wise path" does.
\<close>

definition eeprom_update_word :: "eeprom \<Rightarrow> size_t \<Rightarrow> 16 word \<Rightarrow> eeprom option" where
  "eeprom_update_word e p w = eeprom_update_block e (bytes_of_word w) p 2"

definition eeprom_update_dword :: "eeprom \<Rightarrow> size_t \<Rightarrow> 32 word \<Rightarrow> eeprom option" where
  "eeprom_update_dword e p w = eeprom_update_block e (bytes_of_dword w) p 4"

definition eeprom_update_float :: "eeprom \<Rightarrow> size_t \<Rightarrow> 32 word \<Rightarrow> eeprom option" where
  "eeprom_update_float e p w = eeprom_update_dword e p w"

subsection \<open>Typed access: \<^verbatim>\<open>readEeprom\<close>, \<^verbatim>\<open>writeEeprom\<close> and \<^verbatim>\<open>EepromReference\<close>\<close>

text \<open>
  The functions are templates over a trivially copyable \<^verbatim>\<open>Type\<close>; overload resolution in
  \<^verbatim>\<open>eeprom::details\<close> picks a dedicated function for the scalar types named there, a function
  template for arrays, and the helper templates \<^verbatim>\<open>update_eeprom_helper\<close> and
  \<^verbatim>\<open>read_eeprom_helper\<close> for every other type, with a specialisation for
  \<^verbatim>\<open>sizeof(Type) == 1\<close>.  A value carries its static type: a scalar, a pointer, an array, or
  an object of another type; arrays and objects are given by their object representation
  (the \<^verbatim>\<open>sizeof(Type)\<close> bytes that \<^verbatim>\<open>Type\<close>, being trivially copyable, is determined by).

  A call has one of three outcomes.  It may be ill-formed: template argument deduction or
  the instantiation of the function that overload resolution selects fails, and there is
  no program.  Otherwise it runs, and either has undefined behaviour, or returns.
\<close>

datatype error = Ill_formed | Undefined_behaviour

definition defined :: "'a option \<Rightarrow> error + 'a" where
  "defined x = (case x of None \<Rightarrow> Inl Undefined_behaviour | Some y \<Rightarrow> Inr y)"

datatype ctype =
  TChar | TUInt8 | TInt8 | TUInt16 | TInt16 | TUInt32 | TInt32 | TFloat | TPointer
  | TObject nat | TArray nat

datatype cvalue =
  VChar byte | VUInt8 byte | VInt8 byte | VUInt16 "16 word" | VInt16 "16 word"
  | VUInt32 "32 word" | VInt32 "32 word" | VFloat "32 word" | VPointer "16 word"
  | VObject "byte list" | VArray "byte list"

fun sizeof :: "ctype \<Rightarrow> nat" where
  "sizeof TChar = 1"
| "sizeof TUInt8 = 1"
| "sizeof TInt8 = 1"
| "sizeof TUInt16 = 2"
| "sizeof TInt16 = 2"
| "sizeof TUInt32 = 4"
| "sizeof TInt32 = 4"
| "sizeof TFloat = 4"
| "sizeof TPointer = 2"
| "sizeof (TObject n) = n"
| "sizeof (TArray n) = n"

fun type_of :: "cvalue \<Rightarrow> ctype" where
  "type_of (VChar b) = TChar"
| "type_of (VUInt8 b) = TUInt8"
| "type_of (VInt8 b) = TInt8"
| "type_of (VUInt16 w) = TUInt16"
| "type_of (VInt16 w) = TInt16"
| "type_of (VUInt32 w) = TUInt32"
| "type_of (VInt32 w) = TInt32"
| "type_of (VFloat w) = TFloat"
| "type_of (VPointer w) = TPointer"
| "type_of (VObject bs) = TObject (length bs)"
| "type_of (VArray bs) = TArray (length bs)"

fun object_representation :: "cvalue \<Rightarrow> byte list" where
  "object_representation (VChar b) = [b]"
| "object_representation (VUInt8 b) = [b]"
| "object_representation (VInt8 b) = [b]"
| "object_representation (VUInt16 w) = bytes_of_word w"
| "object_representation (VInt16 w) = bytes_of_word w"
| "object_representation (VUInt32 w) = bytes_of_dword w"
| "object_representation (VInt32 w) = bytes_of_dword w"
| "object_representation (VFloat w) = bytes_of_dword w"
| "object_representation (VPointer w) = bytes_of_word w"
| "object_representation (VObject bs) = bs"
| "object_representation (VArray bs) = bs"

text \<open>
  \<^verbatim>\<open>update_eeprom_helper<Type, size>::update_eeprom(Type & destination, const Type & source)\<close>.
  The primary template is \<^verbatim>\<open>eeprom_update_block(&source, &destination, sizeof(Type))\<close>.
  The specialisation for \<open>size\<close> 1 is
  \<^verbatim>\<open>const auto source_pointer = reinterpret_cast<unsigned char *>(&source);
    eeprom_update_byte(&destination, *source_pointer);\<close>
  where \<^verbatim>\<open>&source\<close> is a \<^verbatim>\<open>const Type *\<close>: a \<^verbatim>\<open>reinterpret_cast\<close> cannot cast \<^verbatim>\<open>const\<close> away
  (and \<^verbatim>\<open>eeprom_update_byte\<close> takes a \<^verbatim>\<open>uint8_t *\<close>, to which no \<^verbatim>\<open>Type *\<close> that reaches the
  helper converts), so every instantiation of the specialisation is ill-formed.
\<close>

definition update_eeprom_helper :: "eeprom \<Rightarrow> size_t \<Rightarrow> byte list \<Rightarrow> error + eeprom" where
  "update_eeprom_helper e destination source =
     (if length source = 1 then Inl Ill_formed
      else defined (eeprom_update_block e source destination (length source)))"

text \<open>
  The overloads of \<^verbatim>\<open>details::update_eeprom\<close>: the functions for \<^verbatim>\<open>char\<close>, \<^verbatim>\<open>uint8_t\<close>,
  \<^verbatim>\<open>int8_t\<close>, \<^verbatim>\<open>uint16_t\<close>, \<^verbatim>\<open>int16_t\<close>, \<^verbatim>\<open>uint32_t\<close>, \<^verbatim>\<open>int32_t\<close> and \<^verbatim>\<open>float\<close>, the template
  for arrays, which is \<^verbatim>\<open>eeprom_update_block(&source[0], &destination[0], sizeof(Type) * size)\<close>,
  and the template for every other type, which forwards to the helper.
\<close>

fun update_eeprom :: "eeprom \<Rightarrow> size_t \<Rightarrow> cvalue \<Rightarrow> error + eeprom" where
  "update_eeprom e object (VChar v) = defined (eeprom_update_byte e object v)"
| "update_eeprom e object (VUInt8 v) = defined (eeprom_update_byte e object v)"
| "update_eeprom e object (VInt8 v) = defined (eeprom_update_byte e object v)"
| "update_eeprom e object (VUInt16 v) = defined (eeprom_update_word e object v)"
| "update_eeprom e object (VInt16 v) = defined (eeprom_update_word e object v)"
| "update_eeprom e object (VUInt32 v) = defined (eeprom_update_dword e object v)"
| "update_eeprom e object (VInt32 v) = defined (eeprom_update_dword e object v)"
| "update_eeprom e object (VFloat v) = defined (eeprom_update_float e object v)"
| "update_eeprom e object (VPointer v) = update_eeprom_helper e object (bytes_of_word v)"
| "update_eeprom e object (VObject bs) = update_eeprom_helper e object bs"
| "update_eeprom e object (VArray bs) = defined (eeprom_update_block e bs object (length bs))"

text \<open>
  \<^verbatim>\<open>template<typename Type> void writeEeprom(Type & destination, const Type & source)\<close> and
  its overload for arrays.  The destination argument is an lvalue: the address of the object
  and the qualification of its type.  Deduction takes \<^verbatim>\<open>Type\<close> from both arguments; for a
  destination of type \<^verbatim>\<open>const T\<close> the first parameter gives \<^verbatim>\<open>const T\<close> and the second gives
  \<^verbatim>\<open>T\<close>, deduction fails for both templates, and the call is ill-formed.
\<close>

datatype qualifier = Mutable | Const

record lvalue =
  qualification :: qualifier
  address :: size_t

definition writeEeprom :: "eeprom \<Rightarrow> lvalue \<Rightarrow> cvalue \<Rightarrow> error + eeprom" where
  "writeEeprom e destination source =
     (case qualification destination of
        Const \<Rightarrow> Inl Ill_formed
      | Mutable \<Rightarrow> update_eeprom e (address destination) source)"

text \<open>
  \<^verbatim>\<open>read_eeprom_helper<Type, size>::read_eeprom(const Type & object)\<close>.  The primary template
  is \<^verbatim>\<open>eeprom_read_block(&result, &object, sizeof(Type))\<close>.  The specialisation for \<open>size\<close> 1
  is \<^verbatim>\<open>*result_pointer = eeprom_read_byte(&object);\<close> where \<^verbatim>\<open>&object\<close> is a \<^verbatim>\<open>const Type *\<close> and
  \<^verbatim>\<open>eeprom_read_byte\<close> takes a \<^verbatim>\<open>const uint8_t *\<close>: the types \<^verbatim>\<open>char\<close>, \<^verbatim>\<open>uint8_t\<close> and \<^verbatim>\<open>int8_t\<close>
  have their own overloads and never reach the helper, and for every other type of one byte
  the conversion does not exist, so every instantiation of the specialisation is ill-formed.
\<close>

definition read_eeprom_helper :: "eeprom \<Rightarrow> nat \<Rightarrow> size_t \<Rightarrow> error + byte list" where
  "read_eeprom_helper e n object =
     (if n = 1 then Inl Ill_formed else defined (eeprom_read_block e object n))"

text \<open>
  The overloads of \<^verbatim>\<open>details::read_eeprom\<close>: the functions for the scalar types, the
  template for pointers, which is \<^verbatim>\<open>eeprom_read_ptr(&object)\<close>, the template for arrays, which
  is declared \<^verbatim>\<open>= delete\<close>, and the template for every other type, which forwards to the
  helper.
\<close>

fun read_eeprom :: "eeprom \<Rightarrow> ctype \<Rightarrow> size_t \<Rightarrow> error + cvalue" where
  "read_eeprom e TChar object = defined (map_option VChar (eeprom_read_byte e object))"
| "read_eeprom e TUInt8 object = defined (map_option VUInt8 (eeprom_read_byte e object))"
| "read_eeprom e TInt8 object = defined (map_option VInt8 (eeprom_read_byte e object))"
| "read_eeprom e TUInt16 object = defined (map_option VUInt16 (eeprom_read_word e object))"
| "read_eeprom e TInt16 object = defined (map_option VInt16 (eeprom_read_word e object))"
| "read_eeprom e TUInt32 object = defined (map_option VUInt32 (eeprom_read_dword e object))"
| "read_eeprom e TInt32 object = defined (map_option VInt32 (eeprom_read_dword e object))"
| "read_eeprom e TFloat object = defined (map_option VFloat (eeprom_read_float e object))"
| "read_eeprom e TPointer object = defined (map_option VPointer (eeprom_read_ptr e object))"
| "read_eeprom e (TObject n) object = map_sum id VObject (read_eeprom_helper e n object)"
| "read_eeprom e (TArray n) object = Inl Ill_formed"

text \<open>
  \<^verbatim>\<open>template<typename Type> Type readEeprom(const Type & object)\<close>; the overload for arrays
  is declared \<^verbatim>\<open>= delete\<close>.  The parameter is a reference to \<^verbatim>\<open>const\<close>, so the qualification
  of the argument plays no part.
\<close>

definition readEeprom :: "eeprom \<Rightarrow> ctype \<Rightarrow> size_t \<Rightarrow> error + cvalue" where
  "readEeprom e t object = read_eeprom e t object"

text \<open>
  \<^verbatim>\<open>EepromReference<Type>\<close> has the single member \<^verbatim>\<open>const value_type * pointer\<close>.  The
  assignment operator is \<^verbatim>\<open>eeprom::writeEeprom(*this->pointer, value)\<close>, whose destination
  \<^verbatim>\<open>*this->pointer\<close> is an lvalue of type \<^verbatim>\<open>const value_type\<close>; the conversion to \<^verbatim>\<open>Type\<close> is
  \<^verbatim>\<open>eeprom::readEeprom(*this->pointer)\<close>.
\<close>

record EepromReference =
  value_type :: ctype
  pointer :: size_t

definition EepromReference_assign ::
  "EepromReference \<Rightarrow> eeprom \<Rightarrow> cvalue \<Rightarrow> error + eeprom" where
  "EepromReference_assign r e v =
     writeEeprom e \<lparr>qualification = Const, address = pointer r\<rparr> v"

definition EepromReference_value :: "EepromReference \<Rightarrow> eeprom \<Rightarrow> error + cvalue" where
  "EepromReference_value r e = readEeprom e (value_type r) (pointer r)"

text \<open>A value of a type that exists: an object or an array has at least one byte.\<close>

fun valid_value :: "cvalue \<Rightarrow> bool" where
  "valid_value (VObject bs) = (bs \<noteq> [])"
| "valid_value (VArray bs) = (bs \<noteq> [])"
| "valid_value v = True"

section \<open>Region array handles: size and emptiness\<close>

text \<open>
  C3.  The claim reads: for every region array handle, \<open>size()\<close> and \<open>max_size()\<close>
  return \<open>N\<close>, and \<open>empty()\<close> is true exactly when \<open>N = 0\<close>.  The sizes are as claimed,
  but both handles compute \<open>empty()\<close> as \<open>capacity > 0\<close>: for a handle of capacity 1 the
  code answers \<open>true\<close>, and for capacity 0 it answers \<open>false\<close>, against the documentation
  comment of the function ("always returns false when size is not 0").
\<close>

theorem C3_region_array_empty_inverted:
  "ProgmemArray_size 1 = 1 \<and> ProgmemArray_max_size 1 = 1 \<and> ProgmemArray_empty 1
   \<and> EepromArray_size 1 = 1 \<and> EepromArray_max_size 1 = 1 \<and> EepromArray_empty 1
   \<and> \<not> ProgmemArray_empty 0 \<and> \<not> EepromArray_empty 0"
  by (simp add: ProgmemArray_size_def ProgmemArray_max_size_def ProgmemArray_empty_def
      EepromArray_size_def EepromArray_max_size_def EepromArray_empty_def)

section \<open>Properties of the linear deque\<close>


lemma unat_succ: "(i::size_t) < n \<Longrightarrow> unat (i + 1) = Suc (unat i)"
  by unat_arith

lemma Deque_iterate_eq:
  "it \<le> e \<Longrightarrow> unat e \<le> length (elements d) \<Longrightarrow>
   Deque_iterate d it e = Some (drop (unat it) (take (unat e) (elements d)))"
proof (induction d it e rule: Deque_iterate.induct)
  case (1 d it e)
  show ?case
  proof (cases "it = e")
    case True
    then show ?thesis by (subst Deque_iterate.simps) simp
  next
    case False
    with "1.prems" have lt: "it < e" by simp
    then have s: "unat (it + 1) = Suc (unat it)" by (rule unat_succ)
    from lt have le: "it + 1 \<le> e" by unat_arith
    from lt have ul: "unat it < unat e" by (simp add: word_less_nat_alt)
    have ih: "Deque_iterate d (it + 1) e = Some (drop (Suc (unat it)) (take (unat e) (elements d)))"
      using "1.IH" [OF False _ le "1.prems"(2)] ul "1.prems"(2) s
      by (simp add: Array_read_def)
    have "drop (unat it) (take (unat e) (elements d))
        = elements d ! unat it # drop (Suc (unat it)) (take (unat e) (elements d))"
      using ul "1.prems"(2) by (simp add: Cons_nth_drop_Suc [symmetric])
    then show ?thesis
      using False ul "1.prems"(2) ih
      by (subst Deque_iterate.simps) (simp add: Array_read_def)
  qed
qed

lemma Deque_contents_eq:
  "Deque_inv capacity d \<Longrightarrow> Deque_contents d = Some (take (unat (element_count d)) (elements d))"
  unfolding Deque_contents_def Deque_begin_def Deque_end_def Deque_get_begin_index_def
    Deque_get_end_index_def Deque_inv_def
  by (subst Deque_iterate_eq) (simp_all add: word_le_nat_alt)

lemma Deque_push_back_ok:
  assumes "Deque_inv capacity d" "element_count d < capacity"
  shows "Deque_push_back safety capacity d v
    = Some (d\<lparr>elements := (elements d)[unat (element_count d) := v],
              element_count := element_count d + 1\<rparr>)"
  using assms
  by (auto simp: Deque_push_back_def Deque_inv_def Deque_size_def Deque_max_size_def
      Array_write_def word_less_nat_alt word_le_nat_alt)

lemma Deque_pop_back_ok:
  assumes "Deque_inv capacity d" "element_count d \<noteq> 0"
  shows "Deque_pop_back safety d
    = Some (d\<lparr>element_count := element_count d - 1,
              destroyed := destroyed d @ [element_count d - 1]\<rparr>)"
proof -
  from assms have "unat (element_count d - 1) < length (elements d)"
    unfolding Deque_inv_def by unat_arith
  then show ?thesis
    using assms by (simp add: Deque_pop_back_def Deque_empty_def Array_ref_def Let_def)
qed



lemma Deque_move_forward_eq:
  "index \<le> count \<Longrightarrow> unat count < length es \<Longrightarrow>
   \<exists>es'. Deque_move_forward es count index = Some es' \<and> length es' = length es \<and>
     (\<forall>i < length es. es' ! i =
        (if unat index \<le> i \<and> i < unat count then es ! (i + 1) else es ! i))"
proof (induction es count index rule: Deque_move_forward.induct)
  case (1 es count index)
  show ?case
  proof (cases "index < count")
    case False
    with "1.prems" have "index = count" by simp
    then show ?thesis by (subst Deque_move_forward.simps) auto
  next
    case True
    then have s: "unat (index + 1) = Suc (unat index)" by (rule unat_succ)
    from True have ul: "unat index < unat count" by (simp add: word_less_nat_alt)
    from True have le: "index + 1 \<le> count" by unat_arith
    let ?es1 = "es[unat index := es ! Suc (unat index)]"
    have r: "Array_read es (index + 1) = Some (es ! Suc (unat index))"
      using "1.prems" ul s by (simp add: Array_read_def)
    have w: "Array_write es index (es ! Suc (unat index)) = Some ?es1"
      using "1.prems" ul by (simp add: Array_write_def)
    have "unat count < length ?es1"
      using "1.prems" by simp
    from "1.IH" [OF True r w le this]
    obtain es' where es': "Deque_move_forward ?es1 count (index + 1) = Some es'"
      "length es' = length ?es1"
      "\<forall>i < length ?es1. es' ! i =
         (if unat (index + 1) \<le> i \<and> i < unat count then ?es1 ! (i + 1) else ?es1 ! i)"
      by blast
    have "Deque_move_forward es count index = Some es'"
      using True r w es'(1) by (subst Deque_move_forward.simps) simp
    moreover have "length es' = length es"
      using es'(2) by simp
    moreover have "\<forall>i < length es. es' ! i =
        (if unat index \<le> i \<and> i < unat count then es ! (i + 1) else es ! i)"
    proof (intro allI impI)
      fix i assume i: "i < length es"
      then have "es' ! i = (if Suc (unat index) \<le> i \<and> i < unat count
          then ?es1 ! (i + 1) else ?es1 ! i)"
        using es'(3) s by simp
      then show "es' ! i = (if unat index \<le> i \<and> i < unat count then es ! (i + 1) else es ! i)"
        using i ul "1.prems" by (auto simp: nth_list_update)
    qed
    ultimately show ?thesis by blast
  qed
qed

lemma Deque_move_forward_overrun:
  "index < count \<Longrightarrow> length es \<le> unat count \<Longrightarrow> Deque_move_forward es count index = None"
proof (induction es count index rule: Deque_move_forward.induct)
  case (1 es count index)
  from "1.prems"(1) have s: "unat (index + 1) = Suc (unat index)" by (rule unat_succ)
  from "1.prems"(1) have ul: "unat index < unat count" by (simp add: word_less_nat_alt)
  show ?case
  proof (cases "Suc (unat index) < length es")
    case False
    then show ?thesis
      using "1.prems"(1) s by (subst Deque_move_forward.simps) (simp add: Array_read_def)
  next
    case True
    let ?es1 = "es[unat index := es ! Suc (unat index)]"
    have r: "Array_read es (index + 1) = Some (es ! Suc (unat index))"
      using True s by (simp add: Array_read_def)
    have w: "Array_write es index (es ! Suc (unat index)) = Some ?es1"
      using True by (simp add: Array_write_def)
    have lt: "index + 1 < count"
      using True "1.prems" s by (simp add: word_less_nat_alt)
    have "Deque_move_forward ?es1 count (index + 1) = None"
      using "1.IH" [OF "1.prems"(1) r w lt] "1.prems"(2) by simp
    then show ?thesis
      using "1.prems"(1) r w by (subst Deque_move_forward.simps) simp
  qed
qed

lemma Deque_pop_front_ok:
  assumes "Deque_inv capacity d" "element_count d \<noteq> 0" "element_count d < capacity"
  shows "\<exists>d'. Deque_pop_front safety d = Some d' \<and> Deque_inv capacity d'
    \<and> element_count d' = element_count d - 1 \<and> destroyed d' = destroyed d
    \<and> take (unat (element_count d')) (elements d') = tl (take (unat (element_count d)) (elements d))
    \<and> (\<forall>i. i < element_count d' \<longrightarrow> Deque_at d' i = Deque_at d (i + 1))"
proof -
  from assms have lt: "unat (element_count d) < length (elements d)"
    by (simp add: Deque_inv_def word_less_nat_alt)
  from Deque_move_forward_eq [of 0 "element_count d", OF _ lt]
  obtain es' where es': "Deque_move_forward (elements d) (element_count d) 0 = Some es'"
    "length es' = length (elements d)"
    "\<forall>i < length (elements d). es' ! i =
       (if i < unat (element_count d) then elements d ! (i + 1) else elements d ! i)"
    by auto
  let ?d' = "d\<lparr>elements := es', element_count := element_count d - 1\<rparr>"
  from assms(2) have u: "unat (element_count d - 1) = unat (element_count d) - 1"
    and p: "0 < unat (element_count d)"
    by unat_arith+
  have 1: "Deque_pop_front safety d = Some ?d'"
    using assms(2) es'(1) by (simp add: Deque_pop_front_def Deque_empty_def)
  have 2: "Deque_inv capacity ?d'"
    using assms es'(2) u by (simp add: Deque_inv_def word_le_nat_alt word_less_nat_alt)
  have 3: "take (unat (element_count ?d')) (elements ?d')
      = tl (take (unat (element_count d)) (elements d))"
  proof (rule nth_equalityI)
    show "length (take (unat (element_count ?d')) (elements ?d'))
        = length (tl (take (unat (element_count d)) (elements d)))"
      using lt es'(2) u by simp
  next
    fix i assume "i < length (take (unat (element_count ?d')) (elements ?d'))"
    then have i: "i < unat (element_count d) - 1"
      using u by simp
    moreover from i have "i < unat (element_count d)" and "i < length (elements d)"
      using lt by simp_all
    ultimately show "take (unat (element_count ?d')) (elements ?d') ! i
        = tl (take (unat (element_count d)) (elements d)) ! i"
      using lt es'(2,3) u by (simp add: nth_tl)
  qed
  have 4: "\<forall>i. i < element_count ?d' \<longrightarrow> Deque_at ?d' i = Deque_at d (i + 1)"
  proof (intro allI impI)
    fix i assume "i < element_count ?d'"
    then have i: "unat i < unat (element_count d) - 1"
      using u by (simp add: word_less_nat_alt)
    then have "unat (i + 1) = Suc (unat i)"
      by unat_arith
    moreover from i have "unat i < unat (element_count d)" and "unat i < length (elements d)"
      and "Suc (unat i) < length (elements d)"
      using lt by simp_all
    ultimately show "Deque_at ?d' i = Deque_at d (i + 1)"
      using es'(2,3) by (simp add: Deque_at_def Array_read_def)
  qed
  show ?thesis
    using 1 2 3 4 by (intro exI [of _ ?d']) simp
qed

lemma Deque_pop_front_full:
  assumes "Deque_inv capacity d" "element_count d \<noteq> 0" "element_count d = capacity"
  shows "Deque_pop_front safety d = None"
proof -
  have "Deque_move_forward (elements d) (element_count d) 0 = None"
    using assms by (intro Deque_move_forward_overrun) (simp_all add: Deque_inv_def word_gt_0)
  then show ?thesis
    using assms(2) by (simp add: Deque_pop_front_def Deque_empty_def)
qed







text \<open>
  C6.  The claim reads: for a linear \<^verbatim>\<open>Deque<T, N>\<close> with \<open>0 < size() \<le> N\<close>, every access of
  \<^verbatim>\<open>pop_front()\<close> lies inside the backing array, the size decreases by one and every
  element moves one place to the front.  For \<open>size() < N\<close> this is lemma
  \<open>Deque_pop_front_ok\<close>.  For a full deque the last pass of the loop reads
  \<^verbatim>\<open>elements[element_count]\<close>, one past the array (lemma \<open>Deque_pop_front_full\<close>): on a
  \<^verbatim>\<open>Deque<char, 2>\<close> filled by two \<^verbatim>\<open>push_back\<close> calls, \<^verbatim>\<open>pop_front()\<close> has undefined
  behaviour, with and without \<^verbatim>\<open>CONTAINER_SAFETY\<close>.
\<close>

theorem C6_pop_front_reads_past_the_array:
  "Deque_push_back False 2 (Deque_init ''##'') CHR ''a''
     = Some \<lparr>elements = ''a#'', element_count = 1, destroyed = []\<rparr>
   \<and> Deque_push_back False 2 \<lparr>elements = ''a#'', element_count = 1, destroyed = []\<rparr> CHR ''b''
     = Some \<lparr>elements = ''ab'', element_count = 2, destroyed = []\<rparr>
   \<and> Deque_size \<lparr>elements = ''ab'', element_count = 2, destroyed = []\<rparr> = Deque_max_size 2
   \<and> Deque_pop_front False \<lparr>elements = ''ab'', element_count = 2, destroyed = []\<rparr> = None
   \<and> Deque_pop_front True \<lparr>elements = ''ab'', element_count = 2, destroyed = []\<rparr> = None"
  by (simp add: Deque_push_back_def Deque_init_def Deque_size_def Deque_max_size_def
      Array_write_def Deque_pop_front_def Deque_empty_def Deque_move_forward.simps
      Array_read_def)

section \<open>Properties of the circular deque\<close>

lemma mod_shift_neq:
  fixes h i c n :: nat
  assumes "i < c" "c < n"
  shows "(h + i) mod n \<noteq> (h + c) mod n"
proof
  assume "(h + i) mod n = (h + c) mod n"
  then have "(h + c) mod n = (h + i) mod n"
    by simp
  moreover have "h + i \<le> h + c"
    using assms by simp
  ultimately have "n dvd (h + c) - (h + i)"
    by (simp add: mod_eq_dvd_iff_nat)
  then have "n dvd c - i"
    by simp
  moreover have "0 < c - i" "c - i < n"
    using assms by simp_all
  ultimately show False
    by (simp add: nat_dvd_not_less)
qed

lemma mod_shift_neq':
  fixes h i c n :: nat
  assumes "i < c" "c < n"
  shows "(h + c) mod n \<noteq> (h + i) mod n"
  by (rule not_sym) (rule mod_shift_neq [OF assms])

lemma size_mod_Some: "capacity \<noteq> 0 \<Longrightarrow> size_mod a capacity = Some (a mod capacity)"
  by (simp add: size_mod_def)

lemma unat_add_small:
  "unat (a::size_t) + unat b < 65536 \<Longrightarrow> unat (a + b) = unat a + unat b"
  using unat_add_lem [of a b] by simp

lemma adjust_index_eq:
  assumes "CircularDeque_inv capacity d" "unat capacity \<le> 32767" "index \<le> capacity"
  shows "CircularDeque_adjust_index capacity d index
      = Some ((first_index d + index) mod capacity)"
    and "unat ((first_index d + index) mod capacity)
      = (unat (first_index d) + unat index) mod unat capacity"
    and "unat ((first_index d + index) mod capacity) < length (elements d)"
proof -
  from assms have b: "unat (first_index d) + unat index < 65536"
    by (simp add: CircularDeque_inv_def word_le_nat_alt word_less_nat_alt)
  show "CircularDeque_adjust_index capacity d index = Some ((first_index d + index) mod capacity)"
    using assms(1) by (simp add: CircularDeque_adjust_index_def CircularDeque_inv_def size_mod_Some)
  show u: "unat ((first_index d + index) mod capacity)
      = (unat (first_index d) + unat index) mod unat capacity"
    using b by (simp add: unat_mod unat_add_small)
  from assms(1) have "0 < unat capacity"
    by (simp add: CircularDeque_inv_def unat_gt_0)
  then show "unat ((first_index d + index) mod capacity) < length (elements d)"
    using assms(1) u by (simp add: CircularDeque_inv_def)
qed

lemma CircularDeque_at_eq:
  assumes "CircularDeque_inv capacity d" "unat capacity \<le> 32767" "index \<le> capacity"
  shows "CircularDeque_at capacity d index
      = Some (elements d ! ((unat (first_index d) + unat index) mod unat capacity))"
  using adjust_index_eq [OF assms]
  by (simp add: CircularDeque_at_def CircularDeque_index_def Array_ref_def Array_read_def)

lemma CircularDeque_iterate_eq:
  "CircularDeque_inv capacity d \<Longrightarrow> unat capacity \<le> 32767 \<Longrightarrow> it \<le> e \<Longrightarrow> e \<le> capacity \<Longrightarrow>
    CircularDeque_iterate capacity d it e
      = Some (map (\<lambda>i. elements d ! ((unat (first_index d) + i) mod unat capacity))
          [unat it..<unat e])"
proof (induction capacity d it e rule: CircularDeque_iterate.induct)
  case (1 capacity d it e)
  show ?case
  proof (cases "it = e")
    case True
    then show ?thesis by (subst CircularDeque_iterate.simps) simp
  next
    case False
    with "1.prems" have lt: "it < e" by simp
    then have s: "unat (it + 1) = Suc (unat it)" by (rule unat_succ)
    from lt have le: "it + 1 \<le> e" by unat_arith
    from lt have ul: "unat it < unat e" by (simp add: word_less_nat_alt)
    from lt "1.prems" have "it \<le> capacity" by simp
    from CircularDeque_at_eq [OF "1.prems"(1,2) this]
    have at: "CircularDeque_at capacity d it
        = Some (elements d ! ((unat (first_index d) + unat it) mod unat capacity))" .
    have ih: "CircularDeque_iterate capacity d (it + 1) e
        = Some (map (\<lambda>i. elements d ! ((unat (first_index d) + i) mod unat capacity))
            [Suc (unat it)..<unat e])"
      using "1.IH" [OF False at "1.prems"(1,2) le "1.prems"(4)] s by simp
    show ?thesis
      using False at ih ul
      by (subst CircularDeque_iterate.simps) (simp add: upt_conv_Cons)
  qed
qed

lemma CircularDeque_contents_eq:
  assumes "CircularDeque_inv capacity d" "unat capacity \<le> 32767"
  shows "CircularDeque_contents capacity d = Some (CircularDeque_list capacity d)"
proof -
  from assms(1) have "element_count d \<le> capacity"
    by (simp add: CircularDeque_inv_def)
  from CircularDeque_iterate_eq [OF assms _ this, of 0] show ?thesis
    by (simp add: CircularDeque_contents_def CircularDeque_begin_def CircularDeque_end_def
        CircularDeque_size_def CircularDeque_list_def CircularDeque_slots_def comp_def)
qed

lemma CircularDeque_push_back_ok:
  assumes "CircularDeque_inv capacity d" "unat capacity \<le> 32767" "element_count d < capacity"
  shows "\<exists>d'. CircularDeque_push_back safety capacity d v = Some d'
    \<and> CircularDeque_inv capacity d'
    \<and> element_count d' = element_count d + 1 \<and> first_index d' = first_index d
    \<and> destroyed d' = destroyed d
    \<and> CircularDeque_list capacity d' = CircularDeque_list capacity d @ [v]"
proof -
  let ?h = "unat (first_index d)" and ?c = "unat (element_count d)" and ?n = "unat capacity"
  let ?j = "(first_index d + element_count d) mod capacity"
  from assms(3) have le: "element_count d \<le> capacity" by simp
  note adj = adjust_index_eq [OF assms(1,2) le]
  from assms(3) have s: "unat (element_count d + 1) = Suc ?c" by (rule unat_succ)
  from assms(3) have cn: "?c < ?n" by (simp add: word_less_nat_alt)
  let ?d' = "d\<lparr>elements := (elements d)[unat ?j := v], element_count := element_count d + 1\<rparr>"
  have 1: "CircularDeque_push_back safety capacity d v = Some ?d'"
    using assms(3) adj
    by (auto simp: CircularDeque_push_back_def CircularDeque_size_def CircularDeque_max_size_def
        CircularDeque_get_end_index_def Array_write_def)
  have 2: "CircularDeque_inv capacity ?d'"
    using assms(1,3) s cn by (simp add: CircularDeque_inv_def word_le_nat_alt)
  have 3: "CircularDeque_list capacity ?d' = CircularDeque_list capacity d @ [v]"
  proof -
    have "\<And>i. i < ?c \<Longrightarrow> (?h + ?c) mod ?n \<noteq> (?h + i) mod ?n"
      using cn by (simp add: mod_shift_neq')
    then have "map (\<lambda>i. (elements d)[unat ?j := v] ! ((?h + i) mod ?n)) [0..<?c]
        = map (\<lambda>i. elements d ! ((?h + i) mod ?n)) [0..<?c]"
      using adj(2) by (intro map_cong) simp_all
    then show ?thesis
      using adj(2,3) s
      by (simp add: CircularDeque_list_def CircularDeque_slots_def comp_def)
  qed
  show ?thesis
    using 1 2 3 by (intro exI [of _ ?d']) simp
qed

lemma previous_index_eq:
  assumes "capacity \<noteq> 0" "unat capacity \<le> 32767" "index < capacity"
  shows "CircularDeque_get_previous_index capacity index
      = Some ((index + (capacity - 1)) mod capacity)"
    and "unat ((index + (capacity - 1)) mod capacity)
      = (unat index + (unat capacity - 1)) mod unat capacity"
    and "(index + (capacity - 1)) mod capacity < capacity"
proof -
  from assms(1) have m: "unat (capacity - 1) = unat capacity - 1"
    by (rule unat_minus_one)
  from assms have "unat index + unat (capacity - 1) < 65536"
    by (simp add: m word_less_nat_alt)
  then have "unat (index + (capacity - 1)) = unat index + (unat capacity - 1)"
    using m by (simp add: unat_add_small)
  then show "unat ((index + (capacity - 1)) mod capacity)
      = (unat index + (unat capacity - 1)) mod unat capacity"
    by (simp add: unat_mod)
  show "CircularDeque_get_previous_index capacity index
      = Some ((index + (capacity - 1)) mod capacity)"
    using assms(1) by (simp add: CircularDeque_get_previous_index_def size_mod_Some)
  from assms(1) show "(index + (capacity - 1)) mod capacity < capacity"
    by (simp add: word_mod_less_divisor word_gt_0)
qed

lemma next_index_eq:
  assumes "capacity \<noteq> 0" "index < capacity"
  shows "CircularDeque_get_next_index capacity index = Some ((index + 1) mod capacity)"
    and "unat ((index + 1) mod capacity) = (unat index + 1) mod unat capacity"
    and "(index + 1) mod capacity < capacity"
proof -
  from assms(2) have "unat (index + 1) = Suc (unat index)"
    by (rule unat_succ)
  then show "unat ((index + 1) mod capacity) = (unat index + 1) mod unat capacity"
    by (simp add: unat_mod)
  show "CircularDeque_get_next_index capacity index = Some ((index + 1) mod capacity)"
    using assms(1) by (simp add: CircularDeque_get_next_index_def size_mod_Some)
  from assms(1) show "(index + 1) mod capacity < capacity"
    by (simp add: word_mod_less_divisor word_gt_0)
qed

lemma CircularDeque_push_front_ok:
  assumes "CircularDeque_inv capacity d" "unat capacity \<le> 32767" "element_count d < capacity"
  shows "\<exists>d'. CircularDeque_push_front safety capacity d v = Some d'
    \<and> CircularDeque_inv capacity d'
    \<and> element_count d' = element_count d + 1
    \<and> first_index d' = (first_index d + (capacity - 1)) mod capacity
    \<and> destroyed d' = destroyed d
    \<and> CircularDeque_list capacity d' = v # CircularDeque_list capacity d"
proof -
  let ?h = "unat (first_index d)" and ?c = "unat (element_count d)" and ?n = "unat capacity"
  let ?j = "(first_index d + (capacity - 1)) mod capacity"
  from assms(1) have n0: "capacity \<noteq> 0" and hn: "first_index d < capacity"
    and len: "length (elements d) = ?n"
    by (simp_all add: CircularDeque_inv_def)
  note prev = previous_index_eq [OF n0 assms(2) hn]
  from assms(3) have s: "unat (element_count d + 1) = Suc ?c" by (rule unat_succ)
  from assms(3) have cn: "?c < ?n" by (simp add: word_less_nat_alt)
  from prev(3) have jn: "unat ?j < ?n" by (simp add: word_less_nat_alt)
  let ?d' = "d\<lparr>first_index := ?j, elements := (elements d)[unat ?j := v],
    element_count := element_count d + 1\<rparr>"
  have 1: "CircularDeque_push_front safety capacity d v = Some ?d'"
    using assms(3) prev(1) jn len
    by (auto simp: CircularDeque_push_front_def CircularDeque_size_def
        CircularDeque_max_size_def Array_write_def Let_def)
  have 2: "CircularDeque_inv capacity ?d'"
    using assms(1,3) s cn prev(3) by (simp add: CircularDeque_inv_def word_le_nat_alt)
  have 3: "CircularDeque_list capacity ?d' = v # CircularDeque_list capacity d"
  proof -
    have shift: "(unat ?j + Suc i) mod ?n = (?h + i) mod ?n" for i
    proof -
      have "(unat ?j + Suc i) mod ?n = ((?h + (?n - 1)) mod ?n + Suc i) mod ?n"
        by (simp only: prev(2))
      also have "\<dots> = ((?h + (?n - 1)) + Suc i) mod ?n"
        by (rule mod_add_left_eq)
      also have "(?h + (?n - 1)) + Suc i = (?h + i) + ?n"
        using cn by simp
      finally show ?thesis by simp
    qed
    have shift': "Suc (unat ?j + i) mod ?n = (?h + i) mod ?n" for i
      using shift [of i] by simp
    have "\<And>i. i < ?c \<Longrightarrow> (?h + (?n - 1)) mod ?n \<noteq> (?h + i) mod ?n"
      using cn by (intro mod_shift_neq') simp_all
    then have "map (\<lambda>i. (elements d)[unat ?j := v] ! ((?h + i) mod ?n)) [0..<?c]
        = map (\<lambda>i. elements d ! ((?h + i) mod ?n)) [0..<?c]"
      using prev(2) by (intro map_cong) simp_all
    moreover have "unat ?j mod ?n = unat ?j"
      using jn by simp
    ultimately show ?thesis
      using jn len s
      by (simp add: CircularDeque_list_def CircularDeque_slots_def comp_def map_upt_Suc shift'
          del: upt_Suc)
  qed
  show ?thesis
    using 1 2 3 by (intro exI [of _ ?d']) simp
qed

lemma CircularDeque_pop_back_ok:
  assumes "CircularDeque_inv capacity d" "unat capacity \<le> 32767" "element_count d \<noteq> 0"
  shows "\<exists>d'. CircularDeque_pop_back safety capacity d = Some d'
    \<and> CircularDeque_inv capacity d'
    \<and> element_count d' = element_count d - 1 \<and> first_index d' = first_index d
    \<and> elements d' = elements d
    \<and> CircularDeque_list capacity d' = butlast (CircularDeque_list capacity d)"
proof -
  let ?j = "(first_index d + (element_count d - 1)) mod capacity"
  from assms(1) have cn: "element_count d \<le> capacity"
    by (simp add: CircularDeque_inv_def)
  from assms(3) have m: "unat (element_count d - 1) = unat (element_count d) - 1"
    by (rule unat_minus_one)
  have le: "element_count d - 1 \<le> capacity"
    using cn m by (simp add: word_le_nat_alt)
  note adj = adjust_index_eq [OF assms(1,2) le]
  let ?d' = "d\<lparr>destroyed := destroyed d @ [?j], element_count := element_count d - 1\<rparr>"
  have 1: "CircularDeque_pop_back safety capacity d = Some ?d'"
    using assms(3) adj(1,3)
    by (simp add: CircularDeque_pop_back_def CircularDeque_empty_def
        CircularDeque_get_last_index_def Array_ref_def)
  have 2: "CircularDeque_inv capacity ?d'"
    using assms(1) le by (simp add: CircularDeque_inv_def)
  have 3: "CircularDeque_list capacity ?d' = butlast (CircularDeque_list capacity d)"
  proof -
    from assms(3) obtain k where k: "unat (element_count d) = Suc k"
      by (cases "unat (element_count d)") (simp_all add: unat_eq_zero)
    then show ?thesis
      using m by (simp add: CircularDeque_list_def CircularDeque_slots_def)
  qed
  show ?thesis
    using 1 2 3 by (intro exI [of _ ?d']) simp
qed

lemma CircularDeque_pop_front_ok:
  assumes "CircularDeque_inv capacity d" "unat capacity \<le> 32767" "element_count d \<noteq> 0"
  shows "\<exists>d'. CircularDeque_pop_front safety capacity d = Some d'
    \<and> CircularDeque_inv capacity d'
    \<and> element_count d' = element_count d - 1
    \<and> first_index d' = (first_index d + 1) mod capacity
    \<and> elements d' = elements d
    \<and> CircularDeque_list capacity d' = tl (CircularDeque_list capacity d)"
proof -
  let ?h = "unat (first_index d)" and ?c = "unat (element_count d)" and ?n = "unat capacity"
  let ?j = "(first_index d + 1) mod capacity"
  from assms(1) have n0: "capacity \<noteq> 0" and hn: "first_index d < capacity"
    and len: "length (elements d) = ?n" and cn: "element_count d \<le> capacity"
    by (simp_all add: CircularDeque_inv_def)
  note nxt = next_index_eq [OF n0 hn]
  from assms(3) have m: "unat (element_count d - 1) = ?c - 1"
    by (rule unat_minus_one)
  have le: "element_count d - 1 \<le> capacity"
    using cn m by (simp add: word_le_nat_alt)
  let ?d' = "d\<lparr>destroyed := destroyed d @ [first_index d], first_index := ?j,
    element_count := element_count d - 1\<rparr>"
  have 1: "CircularDeque_pop_front safety capacity d = Some ?d'"
    using assms(3) nxt(1) hn len
    by (simp add: CircularDeque_pop_front_def CircularDeque_empty_def Array_ref_def Let_def
        word_less_nat_alt)
  have 2: "CircularDeque_inv capacity ?d'"
    using assms(1) le nxt(3) by (simp add: CircularDeque_inv_def)
  have 3: "CircularDeque_list capacity ?d' = tl (CircularDeque_list capacity d)"
  proof -
    have shift: "(unat ?j + i) mod ?n = (?h + Suc i) mod ?n" for i
    proof -
      have "(unat ?j + i) mod ?n = ((?h + 1) mod ?n + i) mod ?n"
        by (simp only: nxt(2))
      also have "\<dots> = ((?h + 1) + i) mod ?n"
        by (rule mod_add_left_eq)
      finally show ?thesis by simp
    qed
    from assms(3) obtain k where k: "?c = Suc k"
      by (cases ?c) (simp_all add: unat_eq_zero)
    then show ?thesis
      using m
      by (simp add: CircularDeque_list_def CircularDeque_slots_def shift comp_def map_upt_Suc
          del: upt_Suc)
  qed
  show ?thesis
    using 1 2 3 by (intro exI [of _ ?d']) simp
qed

lemma CircularDeque_push_back_all_ok:
  "CircularDeque_inv capacity d \<Longrightarrow> unat capacity \<le> 32767 \<Longrightarrow>
   unat (element_count d) + length vs \<le> unat capacity \<Longrightarrow>
   \<exists>d'. CircularDeque_push_back_all safety capacity d vs = Some d'
     \<and> CircularDeque_inv capacity d'
     \<and> unat (element_count d') = unat (element_count d) + length vs
     \<and> CircularDeque_list capacity d' = CircularDeque_list capacity d @ vs"
proof (induction vs arbitrary: d)
  case Nil
  then show ?case by simp
next
  case (Cons v vs)
  from Cons.prems(3) have lt: "element_count d < capacity"
    by (simp add: word_less_nat_alt)
  from CircularDeque_push_back_ok [OF Cons.prems(1,2) lt, of safety v]
  obtain d1 where d1: "CircularDeque_push_back safety capacity d v = Some d1"
    "CircularDeque_inv capacity d1" "element_count d1 = element_count d + 1"
    "CircularDeque_list capacity d1 = CircularDeque_list capacity d @ [v]"
    by blast
  from lt have s: "unat (element_count d + 1) = Suc (unat (element_count d))"
    by (rule unat_succ)
  from Cons.IH [OF d1(2) Cons.prems(2), of ] Cons.prems(3) d1(3) s
  obtain d' where "CircularDeque_push_back_all safety capacity d1 vs = Some d'"
    "CircularDeque_inv capacity d'"
    "unat (element_count d') = unat (element_count d1) + length vs"
    "CircularDeque_list capacity d' = CircularDeque_list capacity d1 @ vs"
    by auto
  then show ?case
    using d1 s by simp
qed

lemma CircularDeque_push_front_all_ok:
  "CircularDeque_inv capacity d \<Longrightarrow> unat capacity \<le> 32767 \<Longrightarrow>
   unat (element_count d) + length vs \<le> unat capacity \<Longrightarrow>
   \<exists>d'. CircularDeque_push_front_all safety capacity d vs = Some d'
     \<and> CircularDeque_inv capacity d'
     \<and> unat (element_count d') = unat (element_count d) + length vs
     \<and> CircularDeque_list capacity d' = rev vs @ CircularDeque_list capacity d"
proof (induction vs arbitrary: d)
  case Nil
  then show ?case by simp
next
  case (Cons v vs)
  from Cons.prems(3) have lt: "element_count d < capacity"
    by (simp add: word_less_nat_alt)
  from CircularDeque_push_front_ok [OF Cons.prems(1,2) lt, of safety v]
  obtain d1 where d1: "CircularDeque_push_front safety capacity d v = Some d1"
    "CircularDeque_inv capacity d1" "element_count d1 = element_count d + 1"
    "CircularDeque_list capacity d1 = v # CircularDeque_list capacity d"
    by blast
  from lt have s: "unat (element_count d + 1) = Suc (unat (element_count d))"
    by (rule unat_succ)
  from Cons.IH [OF d1(2) Cons.prems(2), of ] Cons.prems(3) d1(3) s
  obtain d' where "CircularDeque_push_front_all safety capacity d1 vs = Some d'"
    "CircularDeque_inv capacity d'"
    "unat (element_count d') = unat (element_count d1) + length vs"
    "CircularDeque_list capacity d' = rev vs @ CircularDeque_list capacity d1"
    by auto
  then show ?case
    using d1 s by simp
qed

lemma CircularDeque_init_inv:
  "capacity \<noteq> 0 \<Longrightarrow> length es = unat capacity \<Longrightarrow>
   CircularDeque_inv capacity (CircularDeque_init es)"
  by (simp add: CircularDeque_inv_def CircularDeque_init_def word_gt_0)

text \<open>
  C1.  Starting from a fresh \<^verbatim>\<open>CircularDeque<T, N>\<close>, pushing the \<open>k\<close> elements \<open>bs\<close> at the
  back and then the \<open>j\<close> elements \<open>fs\<close> at the front, with \<open>k + j \<le> N\<close>, succeeds, and
  front-to-back iteration then yields the front-inserted elements in reverse insertion
  order followed by the back-inserted elements in insertion order; the size is \<open>k + j\<close>.
  It holds with and without \<^verbatim>\<open>CONTAINER_SAFETY\<close>.  The capacity is that of an array that
  exists on the target: nonzero, and at most \<^verbatim>\<open>PTRDIFF_MAX\<close> = 32767 elements, the largest
  object the compiler accepts for a 16-bit \<^verbatim>\<open>size_t\<close>.
\<close>

theorem C1_mixed_end_insertion:
  assumes "capacity \<noteq> 0" and "unat capacity \<le> 32767" and "length es = unat capacity"
    and "length bs + length fs \<le> unat capacity"
  shows "\<exists>d1 d2.
    CircularDeque_push_back_all safety capacity (CircularDeque_init es) bs = Some d1
    \<and> CircularDeque_push_front_all safety capacity d1 fs = Some d2
    \<and> CircularDeque_contents capacity d2 = Some (rev fs @ bs)
    \<and> unat (CircularDeque_size d2) = length bs + length fs"
proof -
  let ?d0 = "CircularDeque_init es"
  have inv0: "CircularDeque_inv capacity ?d0"
    using assms(1,3) by (rule CircularDeque_init_inv)
  have c0: "unat (element_count ?d0) = 0" and l0: "CircularDeque_list capacity ?d0 = []"
    by (simp_all add: CircularDeque_init_def CircularDeque_list_def CircularDeque_slots_def)
  from CircularDeque_push_back_all_ok [OF inv0 assms(2), of bs safety] assms(4) c0 l0
  obtain d1 where d1: "CircularDeque_push_back_all safety capacity ?d0 bs = Some d1"
    "CircularDeque_inv capacity d1" "unat (element_count d1) = length bs"
    "CircularDeque_list capacity d1 = bs"
    by auto
  from CircularDeque_push_front_all_ok [OF d1(2) assms(2), of fs safety] assms(4) d1(3,4)
  obtain d2 where d2: "CircularDeque_push_front_all safety capacity d1 fs = Some d2"
    "CircularDeque_inv capacity d2" "unat (element_count d2) = length bs + length fs"
    "CircularDeque_list capacity d2 = rev fs @ bs"
    by auto
  from CircularDeque_contents_eq [OF d2(2) assms(2)] d2(4)
  have "CircularDeque_contents capacity d2 = Some (rev fs @ bs)"
    by simp
  with d1(1) d2(1,3) show ?thesis
    by (simp add: CircularDeque_size_def)
qed

text \<open>
  Scenario S1 (test06): on a \<^verbatim>\<open>CircularDeque<char, 16>\<close>, \<^verbatim>\<open>push_back\<close> of \<open>w o r l d\<close> and
  then \<^verbatim>\<open>push_front\<close> of \<open>_ o l l e h\<close> gives \<open>hello world\<close> and size 11.
\<close>

theorem C1_mixed_end_insertion_witness:
  "(16::size_t) \<noteq> 0 \<and> unat (16::size_t) \<le> 32767
   \<and> length (replicate 16 CHR ''#'') = unat (16::size_t)
   \<and> length ''world'' + length '' olleh'' \<le> unat (16::size_t)
   \<and> (\<exists>d1 d2.
    CircularDeque_push_back_all False 16 (CircularDeque_init (replicate 16 CHR ''#'')) ''world''
      = Some d1
    \<and> CircularDeque_push_front_all False 16 d1 '' olleh'' = Some d2
    \<and> CircularDeque_contents 16 d2 = Some ''hello world''
    \<and> unat (CircularDeque_size d2) = 11)"
proof -
  have 1: "(16::size_t) \<noteq> 0" by simp
  have 2: "unat (16::size_t) \<le> 32767" by simp
  have 3: "length (replicate 16 CHR ''#'') = unat (16::size_t)" by simp
  have 4: "length ''world'' + length '' olleh'' \<le> unat (16::size_t)" by simp
  have 5: "rev '' olleh'' @ ''world'' = ''hello world''" by simp
  have 6: "length ''world'' + length '' olleh'' = 11" by simp
  have "\<exists>d1 d2.
    CircularDeque_push_back_all False 16 (CircularDeque_init (replicate 16 CHR ''#'')) ''world''
      = Some d1
    \<and> CircularDeque_push_front_all False 16 d1 '' olleh'' = Some d2
    \<and> CircularDeque_contents 16 d2 = Some ''hello world''
    \<and> unat (CircularDeque_size d2) = 11"
    using C1_mixed_end_insertion [OF 1 2 3 4, of False] unfolding 5 6 .
  with 1 2 3 4 show ?thesis
    by blast
qed




lemma CircularDeque_clear_loop_eq:
  "capacity \<noteq> 0 \<Longrightarrow> length (elements d) = unat capacity \<Longrightarrow>
   CircularDeque_clear_loop capacity d index
     = Some (d\<lparr>destroyed := destroyed d @
         map (\<lambda>k. (first_index d + (index + of_nat k)) mod capacity)
           [0..<unat ((first_index d + element_count d) mod capacity - index)]\<rparr>)"
proof (induction capacity d index rule: CircularDeque_clear_loop.induct)
  case (1 capacity d index)
  let ?e = "(first_index d + element_count d) mod capacity"
  have e: "CircularDeque_get_end_index capacity d = Some ?e"
    using "1.prems"(1)
    by (simp add: CircularDeque_get_end_index_def CircularDeque_adjust_index_def size_mod_def)
  show ?case
  proof (cases "index = ?e")
    case True
    then show ?thesis
      using e by (subst CircularDeque_clear_loop.simps) simp
  next
    case False
    let ?r = "(first_index d + index) mod capacity"
    let ?d1 = "d\<lparr>destroyed := destroyed d @ [?r]\<rparr>"
    have adj: "CircularDeque_adjust_index capacity d index = Some ?r"
      using "1.prems"(1) by (simp add: CircularDeque_adjust_index_def size_mod_def)
    have "?r < capacity"
      using "1.prems"(1) by (simp add: word_mod_less_divisor word_gt_0)
    then have ref: "Array_ref (elements d) ?r = Some ?r"
      using "1.prems"(2) by (simp add: Array_ref_def word_less_nat_alt)
    from False have "?e - index \<noteq> 0"
      by simp
    then obtain m where m: "unat (?e - index) = Suc m"
      by (cases "unat (?e - index)") (simp_all add: unat_eq_zero)
    have "?e - (index + 1) = ?e - index - 1"
      by simp
    also have "unat \<dots> = unat (?e - index) - 1"
      using \<open>?e - index \<noteq> 0\<close> by (rule unat_minus_one)
    finally have m': "unat (?e - (index + 1)) = m"
      using m by simp
    have ih: "CircularDeque_clear_loop capacity ?d1 (index + 1)
        = Some (?d1\<lparr>destroyed := destroyed ?d1 @
            map (\<lambda>k. (first_index ?d1 + (index + 1 + of_nat k)) mod capacity)
              [0..<unat ((first_index ?d1 + element_count ?d1) mod capacity - (index + 1))]\<rparr>)"
      using "1.IH" [OF e False adj ref "1.prems"(1)] "1.prems"(2) by simp
    have "map (\<lambda>k. (first_index d + (index + of_nat k)) mod capacity) [0..<Suc m]
        = ?r # map (\<lambda>k. (first_index d + (index + 1 + of_nat k)) mod capacity) [0..<m]"
      by (simp add: map_upt_Suc add.assoc add.commute add.left_commute del: upt_Suc)
    then show ?thesis
      using False e adj ref ih m m'
      by (subst CircularDeque_clear_loop.simps) simp
  qed
qed

lemma CircularDeque_clear_eq:
  assumes "capacity \<noteq> 0" "length (elements d) = unat capacity"
  shows "CircularDeque_clear capacity d
     = Some (d\<lparr>destroyed := destroyed d @
         map (\<lambda>k. (first_index d + (first_index d + of_nat k)) mod capacity)
           [0..<unat ((first_index d + element_count d) mod capacity - first_index d)],
         element_count := 0, first_index := 0\<rparr>)"
  using CircularDeque_clear_loop_eq [OF assms, of "first_index d"]
  by (simp add: CircularDeque_clear_def CircularDeque_get_begin_index_def)

text \<open>
  C7.  The claim reads: \<^verbatim>\<open>CircularDeque::clear()\<close> terminates, destroys exactly the live
  elements from front to back, and leaves \<open>count = 0\<close> and \<open>head = 0\<close>.  It does terminate
  and reset both members (lemma \<open>CircularDeque_clear_eq\<close>), but the loop walks the
  physical indices from \<^verbatim>\<open>get_begin_index()\<close> to \<^verbatim>\<open>get_end_index()\<close> and applies
  \<^verbatim>\<open>adjust_index\<close> to them once more.  Three states, each reached from a fresh deque:
  after \<^verbatim>\<open>push_back\<close>, \<^verbatim>\<open>pop_front\<close>, \<^verbatim>\<open>push_back\<close> on capacity 4 the live element is in
  slot 1 and \<^verbatim>\<open>clear\<close> destroys slot 2; on a full deque of capacity 2 it destroys
  nothing; after \<^verbatim>\<open>push_front\<close>, \<^verbatim>\<open>push_back\<close> on capacity 4 the range wraps (slots 3, 0)
  and the counter runs from 3 through the wrap-around of \<^verbatim>\<open>size_t\<close> to 1, calling the
  destructor 65534 times.
\<close>

theorem C7_clear_destroys_the_wrong_slots:
  "CircularDeque_push_back False 4 (CircularDeque_init ''####'') CHR ''a''
     = Some \<lparr>elements = ''a###'', element_count = 1, destroyed = [], first_index = 0\<rparr>
   \<and> CircularDeque_pop_front False 4
      \<lparr>elements = ''a###'', element_count = 1, destroyed = [], first_index = 0\<rparr>
     = Some \<lparr>elements = ''a###'', element_count = 0, destroyed = [0], first_index = 1\<rparr>
   \<and> CircularDeque_push_back False 4
      \<lparr>elements = ''a###'', element_count = 0, destroyed = [0], first_index = 1\<rparr> CHR ''b''
     = Some \<lparr>elements = ''ab##'', element_count = 1, destroyed = [0], first_index = 1\<rparr>
   \<and> CircularDeque_slots 4
      \<lparr>elements = ''ab##'', element_count = 1, destroyed = [0], first_index = 1\<rparr> = [1]
   \<and> CircularDeque_clear 4
      \<lparr>elements = ''ab##'', element_count = 1, destroyed = [0], first_index = 1\<rparr>
     = Some \<lparr>elements = ''ab##'', element_count = 0, destroyed = [0, 2], first_index = 0\<rparr>
   \<and> CircularDeque_push_back_all False 2 (CircularDeque_init ''##'') ''ab''
     = Some \<lparr>elements = ''ab'', element_count = 2, destroyed = [], first_index = 0\<rparr>
   \<and> CircularDeque_slots 2
      \<lparr>elements = ''ab'', element_count = 2, destroyed = [], first_index = 0\<rparr> = [0, 1]
   \<and> CircularDeque_clear 2
      \<lparr>elements = ''ab'', element_count = 2, destroyed = [], first_index = 0\<rparr>
     = Some \<lparr>elements = ''ab'', element_count = 0, destroyed = [], first_index = 0\<rparr>
   \<and> CircularDeque_push_front False 4 (CircularDeque_init ''####'') CHR ''a''
     = Some \<lparr>elements = ''###a'', element_count = 1, destroyed = [], first_index = 3\<rparr>
   \<and> CircularDeque_push_back False 4
      \<lparr>elements = ''###a'', element_count = 1, destroyed = [], first_index = 3\<rparr> CHR ''b''
     = Some \<lparr>elements = ''b##a'', element_count = 2, destroyed = [], first_index = 3\<rparr>
   \<and> CircularDeque_slots 4
      \<lparr>elements = ''b##a'', element_count = 2, destroyed = [], first_index = 3\<rparr> = [3, 0]
   \<and> map_option (\<lambda>d. (length (destroyed d), element_count d, first_index d))
      (CircularDeque_clear 4
        \<lparr>elements = ''b##a'', element_count = 2, destroyed = [], first_index = 3\<rparr>)
     = Some (65534, 0, 0)"
proof -
  have a: "upt 0 (unat (1::size_t)) = [0]" and b: "upt 0 (unat (2::size_t)) = [0, 1]"
    by (simp_all add: upt_rec)
  have c: "((3::size_t) + 2) mod 4 - 3 = 65534"
    by simp
  have d: "[0..<(2::nat)] = [0, 1]"
    by (simp add: upt_rec)
  have run: "CircularDeque_push_back False 4 (CircularDeque_init ''####'') CHR ''a''
      = Some \<lparr>elements = ''a###'', element_count = 1, destroyed = [], first_index = 0\<rparr>"
    "CircularDeque_pop_front False 4
      \<lparr>elements = ''a###'', element_count = 1, destroyed = [], first_index = 0\<rparr>
      = Some \<lparr>elements = ''a###'', element_count = 0, destroyed = [0], first_index = 1\<rparr>"
    "CircularDeque_push_back False 4
      \<lparr>elements = ''a###'', element_count = 0, destroyed = [0], first_index = 1\<rparr> CHR ''b''
      = Some \<lparr>elements = ''ab##'', element_count = 1, destroyed = [0], first_index = 1\<rparr>"
    "CircularDeque_push_back_all False 2 (CircularDeque_init ''##'') ''ab''
      = Some \<lparr>elements = ''ab'', element_count = 2, destroyed = [], first_index = 0\<rparr>"
    "CircularDeque_push_front False 4 (CircularDeque_init ''####'') CHR ''a''
      = Some \<lparr>elements = ''###a'', element_count = 1, destroyed = [], first_index = 3\<rparr>"
    "CircularDeque_push_back False 4
      \<lparr>elements = ''###a'', element_count = 1, destroyed = [], first_index = 3\<rparr> CHR ''b''
      = Some \<lparr>elements = ''b##a'', element_count = 2, destroyed = [], first_index = 3\<rparr>"
    by (simp_all add: CircularDeque_push_back_def CircularDeque_pop_front_def
        CircularDeque_push_front_def CircularDeque_init_def CircularDeque_get_end_index_def
        CircularDeque_adjust_index_def CircularDeque_get_next_index_def
        CircularDeque_get_previous_index_def size_mod_def Array_write_def Array_ref_def
        Let_def)
  show ?thesis
    unfolding run by (simp add: CircularDeque_slots_def CircularDeque_clear_eq a b c d)
qed

section \<open>Swapping two deques\<close>

text \<open>
  C5.  The claim reads: \<open>a.swap(b)\<close> exchanges the observable contents of two deques, sizes
  and element sequences.  Both \<^verbatim>\<open>Deque::swap\<close> and \<^verbatim>\<open>CircularDeque::swap\<close> exchange the
  backing arrays only and leave \<^verbatim>\<open>element_count\<close> (and \<^verbatim>\<open>first_index\<close>) where they are.
  With \<open>a\<close> holding the one element \<open>a\<close> and \<open>b\<close> empty over the array \<open>xy\<close>: after the swap
  \<open>a\<close> still has size 1 and now holds \<open>x\<close>, a slot of \<open>b\<close> that held no element, and \<open>b\<close> is
  still empty.
\<close>

theorem C5_swap_keeps_the_counts:
  "Deque_swap 2 \<lparr>elements = ''a#'', element_count = 1, destroyed = []\<rparr> (Deque_init ''xy'')
     = Some (\<lparr>elements = ''xy'', element_count = 1, destroyed = []\<rparr>,
             \<lparr>elements = ''a#'', element_count = 0, destroyed = []\<rparr>)
   \<and> Deque_contents \<lparr>elements = ''a#'', element_count = 1, destroyed = []\<rparr> = Some ''a''
   \<and> Deque_contents (Deque_init ''xy'') = Some ''''
   \<and> Deque_size \<lparr>elements = ''xy'', element_count = 1, destroyed = []\<rparr> = 1
   \<and> Deque_contents \<lparr>elements = ''xy'', element_count = 1, destroyed = []\<rparr> = Some ''x''
   \<and> Deque_size \<lparr>elements = ''a#'', element_count = 0, destroyed = []\<rparr> = 0
   \<and> Deque_contents \<lparr>elements = ''a#'', element_count = 0, destroyed = []\<rparr> = Some ''''
   \<and> CircularDeque_swap 2
        \<lparr>elements = ''a#'', element_count = 1, destroyed = [], first_index = 0\<rparr>
        (CircularDeque_init ''xy'')
     = Some (\<lparr>elements = ''xy'', element_count = 1, destroyed = [], first_index = 0\<rparr>,
             \<lparr>elements = ''a#'', element_count = 0, destroyed = [], first_index = 0\<rparr>)
   \<and> CircularDeque_size
        \<lparr>elements = ''xy'', element_count = 1, destroyed = [], first_index = 0\<rparr> = 1
   \<and> CircularDeque_contents 2
        \<lparr>elements = ''xy'', element_count = 1, destroyed = [], first_index = 0\<rparr> = Some ''x''"
  by (simp add: Deque_swap_def CircularDeque_swap_def Array_swap_def swap_arrays.simps
      Array_read_def Array_write_def Deque_init_def CircularDeque_init_def
      Deque_contents_def Deque_begin_def Deque_end_def Deque_get_begin_index_def
      Deque_get_end_index_def Deque_iterate.simps Deque_size_def CircularDeque_size_def
      CircularDeque_contents_def CircularDeque_begin_def CircularDeque_end_def
      CircularDeque_iterate.simps CircularDeque_at_def CircularDeque_index_def
      CircularDeque_adjust_index_def size_mod_def Array_ref_def)

section \<open>The container-safety flag\<close>

text \<open>
  C9.  The claim reads: with \<^verbatim>\<open>CONTAINER_SAFETY\<close>, a push or emplace on a full deque, a
  pop, \<^verbatim>\<open>front\<close> or \<^verbatim>\<open>back\<close> on an empty deque and \<^verbatim>\<open>erase\<close> of the end iterator are silent
  no-ops.  \<^verbatim>\<open>front()\<close> and \<^verbatim>\<open>back()\<close> have no \<^verbatim>\<open>CONTAINER_SAFETY\<close> branch in either deque:
  on an empty linear \<^verbatim>\<open>Deque\<close>, \<^verbatim>\<open>back()\<close> indexes slot \<open>element_count - 1\<close>, which is 65535,
  outside the array.
\<close>

theorem C9_back_on_empty_counterexample:
  "Deque_empty (Deque_init ''##'') \<and> Deque_back (Deque_init ''##'') = None"
proof -
  have "unat (- 1 :: size_t) = 65535"
    by (simp add: unsigned_minus_1_eq_mask mask_eq_exp_minus_1)
  then show ?thesis
    by (simp add: Deque_empty_def Deque_init_def Deque_back_def Deque_get_last_index_def
        Array_ref_def)
qed

text \<open>
  C9, amended.  With \<^verbatim>\<open>CONTAINER_SAFETY\<close>, \<^verbatim>\<open>push_back\<close>, \<^verbatim>\<open>push_front\<close>, \<^verbatim>\<open>emplace_back\<close>
  and \<^verbatim>\<open>emplace_front\<close> on a full deque, \<^verbatim>\<open>pop_back\<close>, \<^verbatim>\<open>pop_front\<close> and \<^verbatim>\<open>erase\<close> on an
  empty deque, and \<^verbatim>\<open>erase\<close> of the end iterator return the container unchanged (the
  emplace functions then return no reference).  \<^verbatim>\<open>front()\<close> and \<^verbatim>\<open>back()\<close> are not
  guarded; they never change the container, and on an empty deque \<^verbatim>\<open>front()\<close> of either
  deque and \<^verbatim>\<open>back()\<close> of the circular deque return a reference to a slot inside the
  array, while \<^verbatim>\<open>back()\<close> of an empty linear deque indexes slot \<open>size_t(-1)\<close>, outside the
  array.  Each part has its own hypothesis; \<^verbatim>\<open>erase\<close> of the end iterator has none.
\<close>

theorem C9_safety_checks:
  "(Deque_size d \<ge> Deque_max_size capacity \<longrightarrow>
      Deque_push_back True capacity d v = Some d
      \<and> Deque_push_front True capacity d v = Some d
      \<and> Deque_emplace_back True capacity d v = Some (d, None)
      \<and> Deque_emplace_front True capacity d v = Some (d, None))
   \<and> (Deque_empty e \<longrightarrow>
      Deque_pop_back True e = Some e
      \<and> Deque_pop_front True e = Some e
      \<and> Deque_erase True e it = Some e)
   \<and> Deque_erase True x (Deque_end x) = Some x
   \<and> (CircularDeque_size c \<ge> CircularDeque_max_size capacity \<longrightarrow>
      CircularDeque_push_back True capacity c v = Some c
      \<and> CircularDeque_push_front True capacity c v = Some c
      \<and> CircularDeque_emplace_back True capacity c v = Some (c, None)
      \<and> CircularDeque_emplace_front True capacity c v = Some (c, None))
   \<and> (CircularDeque_empty f \<longrightarrow>
      CircularDeque_pop_back True capacity f = Some f
      \<and> CircularDeque_pop_front True capacity f = Some f
      \<and> CircularDeque_erase True capacity f it = Some f)
   \<and> CircularDeque_erase True capacity y (CircularDeque_end y) = Some y
   \<and> (elements e \<noteq> [] \<longrightarrow> Deque_front e = Some 0)
   \<and> (CircularDeque_inv capacity f \<longrightarrow> CircularDeque_front f = Some (first_index f))
   \<and> (CircularDeque_empty f \<and> CircularDeque_inv capacity f \<longrightarrow>
      CircularDeque_back capacity f = Some ((first_index f - 1) mod capacity))
   \<and> (Deque_empty e \<and> Deque_inv capacity e \<longrightarrow> Deque_back e = None)"
proof -
  have full: "Deque_size d \<ge> Deque_max_size capacity \<longrightarrow>
      Deque_push_back True capacity d v = Some d
      \<and> Deque_push_front True capacity d v = Some d
      \<and> Deque_emplace_back True capacity d v = Some (d, None)
      \<and> Deque_emplace_front True capacity d v = Some (d, None)"
    by (simp add: Deque_push_back_def Deque_push_front_def Deque_emplace_back_def
        Deque_emplace_front_def)
  have empty: "Deque_empty e \<longrightarrow>
      Deque_pop_back True e = Some e
      \<and> Deque_pop_front True e = Some e
      \<and> Deque_erase True e it = Some e"
    by (simp add: Deque_pop_back_def Deque_pop_front_def Deque_erase_def)
  have erase: "Deque_erase True x (Deque_end x) = Some x"
    by (simp add: Deque_erase_def)
  have cfull: "CircularDeque_size c \<ge> CircularDeque_max_size capacity \<longrightarrow>
      CircularDeque_push_back True capacity c v = Some c
      \<and> CircularDeque_push_front True capacity c v = Some c
      \<and> CircularDeque_emplace_back True capacity c v = Some (c, None)
      \<and> CircularDeque_emplace_front True capacity c v = Some (c, None)"
    by (simp add: CircularDeque_push_back_def CircularDeque_push_front_def
        CircularDeque_emplace_back_def CircularDeque_emplace_front_def)
  have cempty: "CircularDeque_empty f \<longrightarrow>
      CircularDeque_pop_back True capacity f = Some f
      \<and> CircularDeque_pop_front True capacity f = Some f
      \<and> CircularDeque_erase True capacity f it = Some f"
    by (simp add: CircularDeque_pop_back_def CircularDeque_pop_front_def
        CircularDeque_erase_def)
  have cerase: "CircularDeque_erase True capacity y (CircularDeque_end y) = Some y"
    by (simp add: CircularDeque_erase_def)
  have dfront: "elements e \<noteq> [] \<longrightarrow> Deque_front e = Some 0"
    by (simp add: Deque_front_def Deque_get_first_index_def Array_ref_def)
  have fr: "CircularDeque_inv capacity f \<longrightarrow> CircularDeque_front f = Some (first_index f)"
    by (simp add: CircularDeque_inv_def word_less_nat_alt CircularDeque_front_def
        CircularDeque_get_first_index_def Array_ref_def)
  have bk: "CircularDeque_empty f \<and> CircularDeque_inv capacity f \<longrightarrow>
      CircularDeque_back capacity f = Some ((first_index f - 1) mod capacity)"
  proof
    assume a: "CircularDeque_empty f \<and> CircularDeque_inv capacity f"
    then have n0: "capacity \<noteq> 0" and len: "length (elements f) = unat capacity"
      by (simp_all add: CircularDeque_inv_def)
    from n0 have "(first_index f - 1) mod capacity < capacity"
      by (simp add: word_mod_less_divisor word_gt_0)
    then have b: "unat ((first_index f - 1) mod capacity) < length (elements f)"
      using len by (simp add: word_less_nat_alt)
    from a have z: "element_count f = 0"
      by (simp add: CircularDeque_empty_def)
    show "CircularDeque_back capacity f = Some ((first_index f - 1) mod capacity)"
      using n0 b z
      by (simp add: CircularDeque_back_def CircularDeque_get_last_index_def
          CircularDeque_adjust_index_def size_mod_def Array_ref_def)
  qed
  have dbk: "Deque_empty e \<and> Deque_inv capacity e \<longrightarrow> Deque_back e = None"
  proof
    assume a: "Deque_empty e \<and> Deque_inv capacity e"
    have m: "unat (- 1 :: size_t) = 65535"
      by (simp add: unsigned_minus_1_eq_mask mask_eq_exp_minus_1)
    have "unat capacity < 65536"
      using unsigned_less [of capacity] by simp
    with a m show "Deque_back e = None"
      by (simp add: Deque_empty_def Deque_inv_def Deque_back_def Deque_get_last_index_def
          Array_ref_def)
  qed
  from full empty erase cfull cempty cerase dfront fr bk dbk show ?thesis
    by (intro conjI)
qed

text \<open>
  Instances: full and empty deques of capacity 2, and \<^verbatim>\<open>erase\<close> of the end iterator on
  deques of capacity 2 that hold one element, neither empty nor full.
\<close>

theorem C9_safety_checks_witness:
  "Deque_size \<lparr>elements = ''ab'', element_count = 2, destroyed = []\<rparr> \<ge> Deque_max_size 2
   \<and> Deque_empty (Deque_init ''##'') \<and> elements (Deque_init ''##'') \<noteq> []
   \<and> CircularDeque_size \<lparr>elements = ''ab'', element_count = 2, destroyed = [],
        first_index = 1\<rparr> \<ge> CircularDeque_max_size 2
   \<and> CircularDeque_empty (CircularDeque_init ''##'')
   \<and> CircularDeque_inv 2 (CircularDeque_init ''##'')
   \<and> Deque_push_back True 2 \<lparr>elements = ''ab'', element_count = 2, destroyed = []\<rparr> CHR ''c''
     = Some \<lparr>elements = ''ab'', element_count = 2, destroyed = []\<rparr>
   \<and> Deque_pop_front True (Deque_init ''##'') = Some (Deque_init ''##'')
   \<and> Deque_erase True \<lparr>elements = ''a#'', element_count = 1, destroyed = []\<rparr> 1
     = Some \<lparr>elements = ''a#'', element_count = 1, destroyed = []\<rparr>
   \<and> CircularDeque_push_front True 2
        \<lparr>elements = ''ab'', element_count = 2, destroyed = [], first_index = 1\<rparr> CHR ''c''
     = Some \<lparr>elements = ''ab'', element_count = 2, destroyed = [], first_index = 1\<rparr>
   \<and> CircularDeque_pop_back True 2 (CircularDeque_init ''##'') = Some (CircularDeque_init ''##'')
   \<and> CircularDeque_erase True 2
        \<lparr>elements = ''#a'', element_count = 1, destroyed = [], first_index = 1\<rparr> 1
     = Some \<lparr>elements = ''#a'', element_count = 1, destroyed = [], first_index = 1\<rparr>
   \<and> Deque_front (Deque_init ''##'') = Some 0
   \<and> CircularDeque_front (CircularDeque_init ''##'') = Some 0
   \<and> CircularDeque_back 2 (CircularDeque_init ''##'') = Some 1
   \<and> Deque_inv 2 (Deque_init ''##'')
   \<and> Deque_back (Deque_init ''##'') = None"
proof -
  let ?d = "\<lparr>elements = ''ab'', element_count = 2, destroyed = []\<rparr>"
  let ?c = "\<lparr>elements = ''ab'', element_count = 2, destroyed = [], first_index = 1\<rparr>"
  let ?x = "\<lparr>elements = ''a#'', element_count = 1, destroyed = []\<rparr>"
  let ?y = "\<lparr>elements = ''#a'', element_count = 1, destroyed = [], first_index = 1\<rparr>"
  have 1: "Deque_size ?d \<ge> Deque_max_size 2"
    by (simp add: Deque_size_def Deque_max_size_def)
  have 2: "Deque_empty (Deque_init ''##'')"
    by (simp add: Deque_empty_def Deque_init_def)
  have 3: "elements (Deque_init ''##'') \<noteq> []"
    by (simp add: Deque_init_def)
  have 4: "CircularDeque_size ?c \<ge> CircularDeque_max_size 2"
    by (simp add: CircularDeque_size_def CircularDeque_max_size_def)
  have 5: "CircularDeque_empty (CircularDeque_init ''##'')"
    by (simp add: CircularDeque_empty_def CircularDeque_init_def)
  have 6: "CircularDeque_inv 2 (CircularDeque_init ''##'')"
    by (simp add: CircularDeque_inv_def CircularDeque_init_def)
  have 7: "((0 :: size_t) - 1) mod 2 = 1"
    by simp
  have 8: "Deque_end ?x = 1"
    by (simp add: Deque_end_def Deque_get_end_index_def)
  have 9: "CircularDeque_end ?y = 1"
    by (simp add: CircularDeque_end_def CircularDeque_size_def)
  have 10: "first_index (CircularDeque_init ''##'') = 0"
    by (simp add: CircularDeque_init_def)
  note t = C9_safety_checks [where d = ?d and capacity = 2 and v = "CHR ''c''"
      and e = "Deque_init ''##''" and it = 0 and x = ?x and c = ?c
      and f = "CircularDeque_init ''##''" and y = ?y]
  have 11: "Deque_inv 2 (Deque_init ''##'')"
    by (simp add: Deque_inv_def Deque_init_def)
  from t [unfolded 8 9 10 7] 1 2 3 4 5 6 11 show ?thesis
    by blast
qed

section \<open>Adapters\<close>

lemma Stack_push_pop:
  assumes "Deque_inv capacity d" "element_count d < capacity"
  shows "\<exists>s1 s2. Stack_push safety capacity (Stack d) v = Some s1
    \<and> Stack_pop safety s1 = Some s2
    \<and> Deque_size (Stack_container s2) = Deque_size d
    \<and> Deque_contents (Stack_container s2) = Deque_contents d"
proof -
  let ?d1 = "d\<lparr>elements := (elements d)[unat (element_count d) := v],
    element_count := element_count d + 1\<rparr>"
  let ?d2 = "?d1\<lparr>element_count := element_count ?d1 - 1,
    destroyed := destroyed ?d1 @ [element_count ?d1 - 1]\<rparr>"
  from assms(2) have s: "unat (element_count d + 1) = Suc (unat (element_count d))"
    by (rule unat_succ)
  then have n0: "element_count ?d1 \<noteq> 0"
    by (auto simp: unat_eq_zero [symmetric] simp del: unat_eq_zero)
  have inv1: "Deque_inv capacity ?d1"
    using assms s by (simp add: Deque_inv_def word_le_nat_alt word_less_nat_alt)
  have 1: "Deque_push_back safety capacity d v = Some ?d1"
    using assms by (rule Deque_push_back_ok)
  have 2: "Deque_pop_back safety ?d1 = Some ?d2"
    using inv1 n0 by (rule Deque_pop_back_ok)
  have inv2: "Deque_inv capacity ?d2"
    using assms by (simp add: Deque_inv_def)
  have "Deque_contents ?d2 = Deque_contents d"
    using Deque_contents_eq [OF inv2] Deque_contents_eq [OF assms(1)] by simp
  then show ?thesis
    using 1 2 by (simp add: Stack_push_def Stack_pop_def Deque_size_def)
qed

lemma CircularStack_push_pop:
  assumes "CircularDeque_inv capacity d" "unat capacity \<le> 32767" "element_count d < capacity"
  shows "\<exists>s1 s2. CircularStack_push safety capacity (Stack d) v = Some s1
    \<and> CircularStack_pop safety capacity s1 = Some s2
    \<and> CircularDeque_size (Stack_container s2) = CircularDeque_size d
    \<and> CircularDeque_contents capacity (Stack_container s2) = CircularDeque_contents capacity d"
proof -
  from CircularDeque_push_back_ok [OF assms, of safety v]
  obtain d1 where d1: "CircularDeque_push_back safety capacity d v = Some d1"
    "CircularDeque_inv capacity d1" "element_count d1 = element_count d + 1"
    "CircularDeque_list capacity d1 = CircularDeque_list capacity d @ [v]"
    by blast
  from assms(3) have s: "unat (element_count d + 1) = Suc (unat (element_count d))"
    by (rule unat_succ)
  then have n0: "element_count d1 \<noteq> 0"
    using d1(3) by (auto simp: unat_eq_zero [symmetric] simp del: unat_eq_zero)
  from CircularDeque_pop_back_ok [OF d1(2) assms(2) n0, of safety]
  obtain d2 where d2: "CircularDeque_pop_back safety capacity d1 = Some d2"
    "CircularDeque_inv capacity d2" "element_count d2 = element_count d1 - 1"
    "CircularDeque_list capacity d2 = butlast (CircularDeque_list capacity d1)"
    by blast
  have "CircularDeque_contents capacity d2 = CircularDeque_contents capacity d"
    using CircularDeque_contents_eq [OF d2(2) assms(2)]
      CircularDeque_contents_eq [OF assms(1,2)] d1(4) d2(4) by simp
  then show ?thesis
    using d1(1,3) d2(1,3)
    by (simp add: CircularStack_push_def CircularStack_pop_def CircularDeque_size_def)
qed

lemma Queue_push_pop:
  assumes "Deque_inv capacity d" "unat (element_count d) + 1 < unat capacity"
  shows "\<exists>q1 q2 xs. Queue_push safety capacity (Queue d) v = Some q1
    \<and> Queue_pop safety q1 = Some q2
    \<and> Deque_size (Queue_container q2) = Deque_size d
    \<and> Deque_contents d = Some xs
    \<and> Deque_contents (Queue_container q2) = Some (tl (xs @ [v]))"
proof -
  let ?d1 = "d\<lparr>elements := (elements d)[unat (element_count d) := v],
    element_count := element_count d + 1\<rparr>"
  from assms(2) have lt: "element_count d < capacity"
    by (simp add: word_less_nat_alt)
  then have s: "unat (element_count d + 1) = Suc (unat (element_count d))"
    by (rule unat_succ)
  then have n0: "element_count ?d1 \<noteq> 0"
    by (auto simp: unat_eq_zero [symmetric] simp del: unat_eq_zero)
  have lt1: "element_count ?d1 < capacity"
    using assms(2) s by (simp add: word_less_nat_alt)
  have inv1: "Deque_inv capacity ?d1"
    using assms(1) lt1 by (simp add: Deque_inv_def)
  have 1: "Deque_push_back safety capacity d v = Some ?d1"
    using assms(1) lt by (rule Deque_push_back_ok)
  from Deque_pop_front_ok [OF inv1 n0 lt1, of safety]
  obtain d2 where d2: "Deque_pop_front safety ?d1 = Some d2" "Deque_inv capacity d2"
    "element_count d2 = element_count ?d1 - 1"
    "take (unat (element_count d2)) (elements d2)
       = tl (take (unat (element_count ?d1)) (elements ?d1))"
    by blast
  have len: "unat (element_count d) < length (elements d)"
    using assms by (simp add: Deque_inv_def)
  have "take (unat (element_count ?d1)) (elements ?d1)
      = take (unat (element_count d)) (elements d) @ [v]"
    using s len by (simp add: take_Suc_conv_app_nth)
  then have "Deque_contents d2 = Some (tl (take (unat (element_count d)) (elements d) @ [v]))"
    using Deque_contents_eq [OF d2(2)] d2(4) by simp
  then show ?thesis
    using 1 d2(1,3) Deque_contents_eq [OF assms(1)]
    by (simp add: Queue_push_def Queue_pop_def Deque_size_def)
qed

lemma FastQueue_push_pop:
  assumes "CircularDeque_inv capacity d" "unat capacity \<le> 32767" "element_count d < capacity"
  shows "\<exists>q1 q2 xs. FastQueue_push safety capacity (Queue d) v = Some q1
    \<and> FastQueue_pop safety capacity q1 = Some q2
    \<and> CircularDeque_size (Queue_container q2) = CircularDeque_size d
    \<and> CircularDeque_contents capacity d = Some xs
    \<and> CircularDeque_contents capacity (Queue_container q2) = Some (tl (xs @ [v]))"
proof -
  from CircularDeque_push_back_ok [OF assms, of safety v]
  obtain d1 where d1: "CircularDeque_push_back safety capacity d v = Some d1"
    "CircularDeque_inv capacity d1" "element_count d1 = element_count d + 1"
    "CircularDeque_list capacity d1 = CircularDeque_list capacity d @ [v]"
    by blast
  from assms(3) have s: "unat (element_count d + 1) = Suc (unat (element_count d))"
    by (rule unat_succ)
  then have n0: "element_count d1 \<noteq> 0"
    using d1(3) by (auto simp: unat_eq_zero [symmetric] simp del: unat_eq_zero)
  from CircularDeque_pop_front_ok [OF d1(2) assms(2) n0, of safety]
  obtain d2 where d2: "CircularDeque_pop_front safety capacity d1 = Some d2"
    "CircularDeque_inv capacity d2" "element_count d2 = element_count d1 - 1"
    "CircularDeque_list capacity d2 = tl (CircularDeque_list capacity d1)"
    by blast
  have "CircularDeque_contents capacity d2 = Some (tl (CircularDeque_list capacity d @ [v]))"
    using CircularDeque_contents_eq [OF d2(2) assms(2)] d1(4) d2(4) by simp
  then show ?thesis
    using d1(1,3) d2(1,3) CircularDeque_contents_eq [OF assms(1,2)]
    by (simp add: FastQueue_push_def FastQueue_pop_def CircularDeque_size_def)
qed

text \<open>
  C4.  The claim reads: for a \<^verbatim>\<open>Stack\<close> or a \<^verbatim>\<open>Queue\<close> that is not full, \<^verbatim>\<open>push(v)\<close> followed
  by \<^verbatim>\<open>pop()\<close> leaves the wrapped container with the same size and the same element
  sequence.  A \<^verbatim>\<open>Queue\<close> pushes at the back and pops at the front: on a queue holding
  \<open>a\<close>, \<^verbatim>\<open>push('b')\<close> and \<^verbatim>\<open>pop()\<close> leave the sequence \<open>b\<close>.
\<close>

theorem C4_queue_push_pop_counterexample:
  "Queue_push False 4 (Queue \<lparr>elements = ''a###'', element_count = 1, destroyed = []\<rparr>) CHR ''b''
     = Some (Queue \<lparr>elements = ''ab##'', element_count = 2, destroyed = []\<rparr>)
   \<and> Queue_pop False (Queue \<lparr>elements = ''ab##'', element_count = 2, destroyed = []\<rparr>)
     = Some (Queue \<lparr>elements = ''b###'', element_count = 1, destroyed = []\<rparr>)
   \<and> Deque_contents \<lparr>elements = ''a###'', element_count = 1, destroyed = []\<rparr> = Some ''a''
   \<and> Deque_contents \<lparr>elements = ''b###'', element_count = 1, destroyed = []\<rparr> = Some ''b''
   \<and> Deque_contents \<lparr>elements = ''b###'', element_count = 1, destroyed = []\<rparr>
      \<noteq> Deque_contents \<lparr>elements = ''a###'', element_count = 1, destroyed = []\<rparr>"
  by (simp add: Queue_push_def Queue_pop_def Deque_push_back_def Deque_pop_front_def
      Deque_size_def Deque_max_size_def Deque_empty_def Array_write_def Array_read_def
      Deque_move_forward.simps Deque_contents_def Deque_begin_def Deque_end_def
      Deque_get_begin_index_def Deque_get_end_index_def Deque_iterate.simps)

text \<open>
  C4, amended.  For a \<^verbatim>\<open>Stack\<close> that is not full, over either deque, \<^verbatim>\<open>push(v)\<close> followed
  by \<^verbatim>\<open>pop()\<close> succeeds and leaves the wrapped container with the same size and the same
  element sequence.  For a \<^verbatim>\<open>Queue\<close>, \<^verbatim>\<open>push(v)\<close> followed by \<^verbatim>\<open>pop()\<close> leaves the size
  unchanged and turns the sequence \<open>xs\<close> into \<open>xs\<close> with \<open>v\<close> appended and the first element
  removed, which is \<open>xs\<close> again when the queue was empty: for a \<^verbatim>\<open>FastQueue\<close> that is not
  full, and for a \<^verbatim>\<open>Queue\<close> over the linear \<^verbatim>\<open>Deque\<close> with \<open>size() + 1 < N\<close>.  The four
  adapters are independent: each part has its own container, capacity and hypothesis.
\<close>

theorem C4_adapter_push_pop:
  "(Deque_inv capacity_s s \<and> element_count s < capacity_s \<longrightarrow>
      (\<exists>s1 s2. Stack_push safety capacity_s (Stack s) v = Some s1
        \<and> Stack_pop safety s1 = Some s2
        \<and> Deque_size (Stack_container s2) = Deque_size s
        \<and> Deque_contents (Stack_container s2) = Deque_contents s))
   \<and> (CircularDeque_inv capacity_cs cs \<and> unat capacity_cs \<le> 32767
        \<and> element_count cs < capacity_cs \<longrightarrow>
      (\<exists>s1 s2. CircularStack_push safety capacity_cs (Stack cs) v = Some s1
        \<and> CircularStack_pop safety capacity_cs s1 = Some s2
        \<and> CircularDeque_size (Stack_container s2) = CircularDeque_size cs
        \<and> CircularDeque_contents capacity_cs (Stack_container s2)
          = CircularDeque_contents capacity_cs cs))
   \<and> (Deque_inv capacity_q q \<and> unat (element_count q) + 1 < unat capacity_q \<longrightarrow>
      (\<exists>q1 q2 xs. Queue_push safety capacity_q (Queue q) v = Some q1
        \<and> Queue_pop safety q1 = Some q2
        \<and> Deque_size (Queue_container q2) = Deque_size q
        \<and> Deque_contents q = Some xs
        \<and> Deque_contents (Queue_container q2) = Some (tl (xs @ [v]))))
   \<and> (CircularDeque_inv capacity_fq fq \<and> unat capacity_fq \<le> 32767
        \<and> element_count fq < capacity_fq \<longrightarrow>
      (\<exists>q1 q2 xs. FastQueue_push safety capacity_fq (Queue fq) v = Some q1
        \<and> FastQueue_pop safety capacity_fq q1 = Some q2
        \<and> CircularDeque_size (Queue_container q2) = CircularDeque_size fq
        \<and> CircularDeque_contents capacity_fq fq = Some xs
        \<and> CircularDeque_contents capacity_fq (Queue_container q2) = Some (tl (xs @ [v]))))"
proof (intro conjI impI)
  assume "Deque_inv capacity_s s \<and> element_count s < capacity_s"
  then show "\<exists>s1 s2. Stack_push safety capacity_s (Stack s) v = Some s1
        \<and> Stack_pop safety s1 = Some s2
        \<and> Deque_size (Stack_container s2) = Deque_size s
        \<and> Deque_contents (Stack_container s2) = Deque_contents s"
    using Stack_push_pop [of capacity_s s safety v] by blast
next
  assume "CircularDeque_inv capacity_cs cs \<and> unat capacity_cs \<le> 32767
        \<and> element_count cs < capacity_cs"
  then show "\<exists>s1 s2. CircularStack_push safety capacity_cs (Stack cs) v = Some s1
        \<and> CircularStack_pop safety capacity_cs s1 = Some s2
        \<and> CircularDeque_size (Stack_container s2) = CircularDeque_size cs
        \<and> CircularDeque_contents capacity_cs (Stack_container s2)
          = CircularDeque_contents capacity_cs cs"
    using CircularStack_push_pop [of capacity_cs cs safety v] by blast
next
  assume "Deque_inv capacity_q q \<and> unat (element_count q) + 1 < unat capacity_q"
  then show "\<exists>q1 q2 xs. Queue_push safety capacity_q (Queue q) v = Some q1
        \<and> Queue_pop safety q1 = Some q2
        \<and> Deque_size (Queue_container q2) = Deque_size q
        \<and> Deque_contents q = Some xs
        \<and> Deque_contents (Queue_container q2) = Some (tl (xs @ [v]))"
    using Queue_push_pop [of capacity_q q safety v] by blast
next
  assume "CircularDeque_inv capacity_fq fq \<and> unat capacity_fq \<le> 32767
        \<and> element_count fq < capacity_fq"
  then show "\<exists>q1 q2 xs. FastQueue_push safety capacity_fq (Queue fq) v = Some q1
        \<and> FastQueue_pop safety capacity_fq q1 = Some q2
        \<and> CircularDeque_size (Queue_container q2) = CircularDeque_size fq
        \<and> CircularDeque_contents capacity_fq fq = Some xs
        \<and> CircularDeque_contents capacity_fq (Queue_container q2) = Some (tl (xs @ [v]))"
    using FastQueue_push_pop [of capacity_fq fq safety v] by blast
qed

text \<open>
  Instances: a stack over an empty \<^verbatim>\<open>Deque\<close> and over an empty \<^verbatim>\<open>CircularDeque\<close> of
  capacity 1, a queue over a \<^verbatim>\<open>Deque\<close> of capacity 4 holding \<open>a\<close>, and a queue over a
  \<^verbatim>\<open>CircularDeque\<close> of capacity 4 holding \<open>a\<close> in slot 3.
\<close>

theorem C4_adapter_push_pop_witness:
  "Deque_inv 1 (Deque_init ''#'')
   \<and> element_count (Deque_init ''#'') < (1::size_t)
   \<and> CircularDeque_inv 1 (CircularDeque_init ''#'')
   \<and> unat (1::size_t) \<le> 32767
   \<and> element_count (CircularDeque_init ''#'') < (1::size_t)
   \<and> Deque_inv 4 \<lparr>elements = ''a###'', element_count = 1, destroyed = []\<rparr>
   \<and> unat (element_count \<lparr>elements = ''a###'', element_count = 1, destroyed = []\<rparr>) + 1
      < unat (4::size_t)
   \<and> CircularDeque_inv 4
        \<lparr>elements = ''###a'', element_count = 1, destroyed = [], first_index = 3\<rparr>
   \<and> unat (4::size_t) \<le> 32767
   \<and> element_count
        \<lparr>elements = ''###a'', element_count = 1, destroyed = [], first_index = 3 :: size_t\<rparr>
      < (4::size_t)
   \<and> (\<exists>s1 s2. Stack_push False 1 (Stack (Deque_init ''#'')) CHR ''b'' = Some s1
      \<and> Stack_pop False s1 = Some s2
      \<and> Deque_size (Stack_container s2) = 0
      \<and> Deque_contents (Stack_container s2) = Some [])
   \<and> (\<exists>s1 s2. CircularStack_push False 1 (Stack (CircularDeque_init ''#'')) CHR ''b'' = Some s1
      \<and> CircularStack_pop False 1 s1 = Some s2
      \<and> CircularDeque_size (Stack_container s2) = 0
      \<and> CircularDeque_contents 1 (Stack_container s2) = Some [])
   \<and> (\<exists>q1 q2. Queue_push False 4
          (Queue \<lparr>elements = ''a###'', element_count = 1, destroyed = []\<rparr>) CHR ''b'' = Some q1
      \<and> Queue_pop False q1 = Some q2
      \<and> Deque_size (Queue_container q2) = 1
      \<and> Deque_contents (Queue_container q2) = Some ''b'')
   \<and> (\<exists>q1 q2. FastQueue_push False 4
          (Queue \<lparr>elements = ''###a'', element_count = 1, destroyed = [], first_index = 3\<rparr>)
          CHR ''b'' = Some q1
      \<and> FastQueue_pop False 4 q1 = Some q2
      \<and> CircularDeque_size (Queue_container q2) = 1
      \<and> CircularDeque_contents 4 (Queue_container q2) = Some ''b'')"
proof -
  let ?s = "Deque_init ''#''"
  let ?cs = "CircularDeque_init ''#''"
  let ?d = "\<lparr>elements = ''a###'', element_count = 1 :: size_t, destroyed = []\<rparr>"
  let ?c = "\<lparr>elements = ''###a'', element_count = 1 :: size_t, destroyed = [],
    first_index = 3 :: size_t\<rparr>"
  have s1: "Deque_inv 1 ?s"
    by (simp add: Deque_inv_def Deque_init_def)
  have s2: "element_count ?s < (1::size_t)"
    by (simp add: Deque_init_def)
  have c1: "CircularDeque_inv 1 ?cs"
    by (simp add: CircularDeque_inv_def CircularDeque_init_def)
  have c2: "unat (1::size_t) \<le> 32767"
    by simp
  have c3: "element_count ?cs < (1::size_t)"
    by (simp add: CircularDeque_init_def)
  have q1: "Deque_inv 4 ?d"
    by (simp add: Deque_inv_def)
  have q2: "unat (element_count ?d) + 1 < unat (4::size_t)"
    by simp
  have f1: "CircularDeque_inv 4 ?c"
    by (simp add: CircularDeque_inv_def)
  have f2: "unat (4::size_t) \<le> 32767"
    by simp
  have f3: "element_count ?c < (4::size_t)"
    by simp
  have e1: "Deque_contents ?s = Some []" "Deque_size ?s = 0"
    using Deque_contents_eq [OF s1] by (simp_all add: Deque_size_def Deque_init_def)
  have e2: "CircularDeque_contents 1 ?cs = Some []" "CircularDeque_size ?cs = 0"
    using CircularDeque_contents_eq [OF c1 c2]
    by (simp_all add: CircularDeque_list_def CircularDeque_slots_def CircularDeque_size_def
        CircularDeque_init_def)
  have e3: "Deque_contents ?d = Some ''a''" "Deque_size ?d = 1"
    by (simp_all add: Deque_contents_eq [OF q1] Deque_size_def)
  have e4: "CircularDeque_contents 4 ?c = Some ''a''" "CircularDeque_size ?c = 1"
    by (simp_all add: CircularDeque_contents_eq [OF f1 f2] CircularDeque_list_def
        CircularDeque_slots_def CircularDeque_size_def)
  note t = C4_adapter_push_pop [where capacity_s = 1 and s = ?s and capacity_cs = 1
      and cs = ?cs and capacity_q = 4 and q = ?d and capacity_fq = 4 and fq = ?c
      and safety = False and v = "CHR ''b''"]
  from t have part1: "\<exists>s1 s2. Stack_push False 1 (Stack ?s) CHR ''b'' = Some s1
      \<and> Stack_pop False s1 = Some s2
      \<and> Deque_size (Stack_container s2) = 0
      \<and> Deque_contents (Stack_container s2) = Some []"
    using s1 s2 unfolding e1 by blast
  from t have part2: "\<exists>s1 s2. CircularStack_push False 1 (Stack ?cs) CHR ''b'' = Some s1
      \<and> CircularStack_pop False 1 s1 = Some s2
      \<and> CircularDeque_size (Stack_container s2) = 0
      \<and> CircularDeque_contents 1 (Stack_container s2) = Some []"
    using c1 c2 c3 unfolding e2 by blast
  from t have "\<exists>q1 q2 xs. Queue_push False 4 (Queue ?d) CHR ''b'' = Some q1
      \<and> Queue_pop False q1 = Some q2
      \<and> Deque_size (Queue_container q2) = 1
      \<and> Some ''a'' = Some xs
      \<and> Deque_contents (Queue_container q2) = Some (tl (xs @ ''b''))"
    using q1 q2 unfolding e3 by blast
  then have part3: "\<exists>q1 q2. Queue_push False 4 (Queue ?d) CHR ''b'' = Some q1
      \<and> Queue_pop False q1 = Some q2
      \<and> Deque_size (Queue_container q2) = 1
      \<and> Deque_contents (Queue_container q2) = Some ''b''"
    by auto
  from t have "\<exists>q1 q2 xs. FastQueue_push False 4 (Queue ?c) CHR ''b'' = Some q1
      \<and> FastQueue_pop False 4 q1 = Some q2
      \<and> CircularDeque_size (Queue_container q2) = 1
      \<and> Some ''a'' = Some xs
      \<and> CircularDeque_contents 4 (Queue_container q2) = Some (tl (xs @ ''b''))"
    using f1 f2 f3 unfolding e4 by blast
  then have part4: "\<exists>q1 q2. FastQueue_push False 4 (Queue ?c) CHR ''b'' = Some q1
      \<and> FastQueue_pop False 4 q1 = Some q2
      \<and> CircularDeque_size (Queue_container q2) = 1
      \<and> CircularDeque_contents 4 (Queue_container q2) = Some ''b''"
    by auto
  from s1 s2 c1 c2 c3 q1 q2 f1 f2 f3 part1 part2 part3 part4 show ?thesis
    by (intro conjI)
qed

section \<open>Invariants of the reachable states\<close>


lemma Deque_move_forward_length:
  "Deque_move_forward es count index = Some es' \<Longrightarrow> length es' = length es"
proof (induction es count index arbitrary: es' rule: Deque_move_forward.induct)
  case (1 es count index)
  show ?case
  proof (cases "index < count")
    case False
    with "1.prems" show ?thesis by (subst (asm) Deque_move_forward.simps) simp
  next
    case True
    from "1.prems" True obtain x es1 where
      r: "Array_read es (index + 1) = Some x" and w: "Array_write es index x = Some es1"
      and l: "Deque_move_forward es1 count (index + 1) = Some es'"
      by (subst (asm) Deque_move_forward.simps) (auto split: bind_splits)
    from w have "length es1 = length es"
      by (auto simp: Array_write_def split: if_splits)
    with "1.IH" [OF True r w l] show ?thesis by simp
  qed
qed




lemma Array_read_append:
  "Array_read es i = Some x \<Longrightarrow> Array_read (es @ ys) i = Some x"
  by (auto simp: Array_read_def nth_append split: if_splits)

lemma Array_write_append:
  "Array_write es i x = Some es' \<Longrightarrow> Array_write (es @ ys) i x = Some (es' @ ys)"
  by (auto simp: Array_write_def list_update_append1 split: if_splits)

lemma Deque_move_forward_append:
  "Deque_move_forward es count index = Some es' \<Longrightarrow>
   Deque_move_forward (es @ ys) count index = Some (es' @ ys)"
proof (induction es count index arbitrary: es' rule: Deque_move_forward.induct)
  case (1 es count index)
  show ?case
  proof (cases "index < count")
    case False
    with "1.prems" have "es' = es"
      by (subst (asm) Deque_move_forward.simps) simp
    with False show ?thesis
      by (subst Deque_move_forward.simps) simp
  next
    case True
    from "1.prems" True obtain x es1 where
      r: "Array_read es (index + 1) = Some x" and w: "Array_write es index x = Some es1"
      and l: "Deque_move_forward es1 count (index + 1) = Some es'"
      by (subst (asm) Deque_move_forward.simps) (auto split: bind_splits)
    from "1.IH" [OF True r w l]
    have "Deque_move_forward (es1 @ ys) count (index + 1) = Some (es' @ ys)" .
    then show ?thesis
      using True Array_read_append [OF r, of ys] Array_write_append [OF w, of ys]
      by (subst Deque_move_forward.simps) simp
  qed
qed

text \<open>
  Where the language defines \<^verbatim>\<open>pop_front\<close>, the run gives the same deque, whatever lies
  behind the array.
\<close>

lemma Deque_pop_front_run_agrees:
  assumes "Deque_pop_front safety d = Some d'"
  shows "Deque_pop_front_run safety past d = Some d'"
proof (cases "safety \<and> Deque_empty d")
  case True
  with assms have "d' = d"
    by (simp add: Deque_pop_front_def)
  with True show ?thesis
    by (simp add: Deque_pop_front_run_def Deque_pop_front_def Deque_empty_def)
next
  case False
  with assms obtain es where
    m: "Deque_move_forward (elements d) (element_count d) 0 = Some es"
    and d': "d' = d\<lparr>elements := es, element_count := element_count d - 1\<rparr>"
    by (auto simp: Deque_pop_front_def split: bind_splits)
  from False have "\<not> (safety \<and> element_count d = 0)"
    by (simp add: Deque_empty_def)
  with Deque_move_forward_append [OF m, of "[past]"] d' show ?thesis
    by (auto simp: Deque_pop_front_run_def Deque_pop_front_def Deque_empty_def)
qed








subsection \<open>Every well-formed call yields a state\<close>


















section \<open>Persistent memory: round trip and wear\<close>

lemma eeprom_read_block_eq:
  "unat src + n \<le> length (cells e) \<Longrightarrow> length (cells e) \<le> 65536 \<Longrightarrow>
   eeprom_read_block e src n = Some (take n (drop (unat src) (cells e)))"
proof (induction n arbitrary: src)
  case 0
  then show ?case by simp
next
  case (Suc n)
  from Suc.prems have lt: "unat src < length (cells e)"
    by simp
  have rest: "eeprom_read_block e (src + 1) n = Some (take n (drop (Suc (unat src)) (cells e)))"
  proof (cases n)
    case 0
    then show ?thesis by simp
  next
    case (Suc m)
    with Suc.prems have "unat src + 1 < 65536"
      by simp
    then have "unat (src + 1) = Suc (unat src)"
      using unat_add_lem [of src 1] by simp
    with Suc.IH [of "src + 1"] Suc.prems show ?thesis
      by simp
  qed
  have "take (Suc n) (drop (unat src) (cells e))
      = cells e ! unat src # take n (drop (Suc (unat src)) (cells e))"
    using lt by (simp add: Cons_nth_drop_Suc [symmetric])
  then show ?case
    using lt rest by (simp add: eeprom_read_byte_def)
qed

lemma eeprom_update_byte_eq:
  "unat p < length (cells e) \<Longrightarrow>
   eeprom_update_byte e p b
     = Some (if cells e ! unat p = b then e
        else e\<lparr>cells := (cells e)[unat p := b], writes := writes e + 1\<rparr>)"
  by (simp add: eeprom_update_byte_def eeprom_read_byte_def eeprom_write_byte_def)

lemma eeprom_update_byte_ok:
  assumes "unat p < length (cells e)"
  shows "\<exists>e1. eeprom_update_byte e p b = Some e1
    \<and> length (cells e1) = length (cells e)
    \<and> cells e1 ! unat p = b
    \<and> (\<forall>i. i \<noteq> unat p \<longrightarrow> cells e1 ! i = cells e ! i)
    \<and> writes e \<le> writes e1 \<and> writes e1 \<le> writes e + 1
    \<and> (cells e ! unat p = b \<longrightarrow> e1 = e)"
  using assms by (simp add: eeprom_update_byte_eq)

lemma eeprom_update_block_ok:
  "n \<le> length src \<Longrightarrow> unat dst + n \<le> length (cells e) \<Longrightarrow> length (cells e) \<le> 65536 \<Longrightarrow>
   \<exists>e'. eeprom_update_block e src dst n = Some e'
     \<and> length (cells e') = length (cells e)
     \<and> (\<forall>i < length (cells e). cells e' ! i =
          (if unat dst \<le> i \<and> i < unat dst + n then src ! (i - unat dst) else cells e ! i))
     \<and> writes e \<le> writes e' \<and> writes e' \<le> writes e + n
     \<and> (take n (drop (unat dst) (cells e)) = take n src \<longrightarrow> e' = e)"
proof (induction n arbitrary: e src dst)
  case 0
  then show ?case by auto
next
  case (Suc n)
  from Suc.prems(1) obtain b bs where src: "src = b # bs"
    by (cases src) simp_all
  from Suc.prems have lt: "unat dst < length (cells e)"
    by simp
  from eeprom_update_byte_ok [OF lt, of b]
  obtain e1 where e1: "eeprom_update_byte e dst b = Some e1"
    "length (cells e1) = length (cells e)" "cells e1 ! unat dst = b"
    "\<forall>i. i \<noteq> unat dst \<longrightarrow> cells e1 ! i = cells e ! i"
    "writes e \<le> writes e1" "writes e1 \<le> writes e + 1"
    "cells e ! unat dst = b \<longrightarrow> e1 = e"
    by blast
  have drop_e: "drop (unat dst) (cells e) = cells e ! unat dst # drop (Suc (unat dst)) (cells e)"
    using lt by (simp add: Cons_nth_drop_Suc)
  show ?case
  proof (cases n)
    case 0
    have 1: "eeprom_update_block e src dst (Suc n) = Some e1"
      using 0 src e1(1) by simp
    have 3: "\<forall>i < length (cells e). cells e1 ! i =
        (if unat dst \<le> i \<and> i < unat dst + Suc n then src ! (i - unat dst) else cells e ! i)"
      using 0 src e1(3,4) by (auto simp: le_less_Suc_eq)
    have 5: "take (Suc n) (drop (unat dst) (cells e)) = take (Suc n) src \<longrightarrow> e1 = e"
      using 0 src e1(7) drop_e by simp
    show ?thesis
      using 1 e1(2,5,6) 3 5 by (intro exI [of _ e1]) simp
  next
    case (Suc m)
    with Suc.prems have "unat dst + 1 < 65536"
      by simp
    then have s: "unat (dst + 1) = Suc (unat dst)"
      using unat_add_lem [of dst 1] by simp
    have p1: "n \<le> length bs"
      using Suc.prems(1) src by simp
    have p2: "unat (dst + 1) + n \<le> length (cells e1)"
      using Suc.prems(2) s e1(2) by simp
    have p3: "length (cells e1) \<le> 65536"
      using Suc.prems(3) e1(2) by simp
    from Suc.IH [OF p1 p2 p3]
    obtain e' where e': "eeprom_update_block e1 bs (dst + 1) n = Some e'"
      "length (cells e') = length (cells e1)"
      "\<forall>i < length (cells e1). cells e' ! i =
        (if unat (dst + 1) \<le> i \<and> i < unat (dst + 1) + n then bs ! (i - unat (dst + 1))
         else cells e1 ! i)"
      "writes e1 \<le> writes e'" "writes e' \<le> writes e1 + n"
      "take n (drop (unat (dst + 1)) (cells e1)) = take n bs \<longrightarrow> e' = e1"
      by blast
    have 1: "eeprom_update_block e src dst (Suc n) = Some e'"
      using src e1(1) e'(1) by simp
    have 2: "length (cells e') = length (cells e)"
      using e'(2) e1(2) by simp
    have 3: "\<forall>i < length (cells e). cells e' ! i =
        (if unat dst \<le> i \<and> i < unat dst + Suc n then src ! (i - unat dst) else cells e ! i)"
    proof (intro allI impI)
      fix i assume i: "i < length (cells e)"
      then have c: "cells e' ! i =
          (if Suc (unat dst) \<le> i \<and> i < Suc (unat dst) + n then bs ! (i - Suc (unat dst))
           else cells e1 ! i)"
        using e'(3) e1(2) s by simp
      show "cells e' ! i =
          (if unat dst \<le> i \<and> i < unat dst + Suc n then src ! (i - unat dst) else cells e ! i)"
      proof (cases "i = unat dst")
        case True
        with c e1(3) src show ?thesis by simp
      next
        case False
        with c e1(4) src show ?thesis
          by (auto simp: Suc_diff_le nth_Cons')
      qed
    qed
    have 4: "writes e \<le> writes e'" "writes e' \<le> writes e + Suc n"
      using e'(4,5) e1(5,6) by linarith+
    have 5: "take (Suc n) (drop (unat dst) (cells e)) = take (Suc n) src \<longrightarrow> e' = e"
    proof
      assume eq: "take (Suc n) (drop (unat dst) (cells e)) = take (Suc n) src"
      with drop_e src have b: "cells e ! unat dst = b"
        and r: "take n (drop (Suc (unat dst)) (cells e)) = take n bs"
        by simp_all
      from b e1(7) have "e1 = e" by simp
      with e'(6) r s show "e' = e" by simp
    qed
    show ?thesis
      using 1 2 3 4 5 by blast
  qed
qed

lemma eeprom_update_block_read:
  assumes "n \<le> length src" "unat dst + n \<le> length (cells e)" "length (cells e) \<le> 65536"
  shows "\<exists>e'. eeprom_update_block e src dst n = Some e'
     \<and> eeprom_read_block e' dst n = Some (take n src)
     \<and> writes e \<le> writes e' \<and> writes e' \<le> writes e + n
     \<and> (eeprom_read_block e dst n = Some (take n src) \<longrightarrow> e' = e)"
proof -
  from eeprom_update_block_ok [OF assms]
  obtain e' where e': "eeprom_update_block e src dst n = Some e'"
    "length (cells e') = length (cells e)"
    "\<forall>i < length (cells e). cells e' ! i =
       (if unat dst \<le> i \<and> i < unat dst + n then src ! (i - unat dst) else cells e ! i)"
    "writes e \<le> writes e'" "writes e' \<le> writes e + n"
    "take n (drop (unat dst) (cells e)) = take n src \<longrightarrow> e' = e"
    by blast
  have "take n (drop (unat dst) (cells e')) = take n src"
  proof (rule nth_equalityI)
    show "length (take n (drop (unat dst) (cells e'))) = length (take n src)"
      using assms e'(2) by simp
  next
    fix i assume "i < length (take n (drop (unat dst) (cells e')))"
    then have i: "i < n" by simp
    with assms e'(2,3) show "take n (drop (unat dst) (cells e')) ! i = take n src ! i"
      by simp
  qed
  then have "eeprom_read_block e' dst n = Some (take n src)"
    using eeprom_read_block_eq [of dst n e'] assms e'(2) by simp
  moreover have "eeprom_read_block e dst n = Some (take n src) \<longrightarrow> e' = e"
    using eeprom_read_block_eq [of dst n e] assms e'(6) by simp
  ultimately show ?thesis
    using e'(1,4,5) by blast
qed

lemma word_of_bytes_of_word: "word_of_bytes (bytes_of_word w) = Some w"
proof -
  have "word_cat (ucast (drop_bit 8 w) :: 8 word) (ucast w :: 8 word) = w"
    by (rule word_cat_split_alt) (simp_all add: word_split_def word_size)
  then show ?thesis
    by (simp add: bytes_of_word_def)
qed

lemma dword_of_bytes_of_dword: "dword_of_bytes (bytes_of_dword w) = Some w"
proof -
  have "word_cat
      (word_cat (ucast (drop_bit 24 w) :: 8 word) (ucast (drop_bit 16 w) :: 8 word) :: 16 word)
      (word_cat (ucast (drop_bit 8 w) :: 8 word) (ucast w :: 8 word) :: 16 word) = w"
    by (rule bit_word_eqI) (auto simp: bit_word_cat_iff bit_ucast_iff bit_drop_bit_eq not_less)
  then show ?thesis
    by (simp add: bytes_of_dword_def)
qed

lemma length_bytes_of_word: "length (bytes_of_word w) = 2"
  by (simp add: bytes_of_word_def)

lemma length_object_representation:
  "length (object_representation v) = sizeof (type_of v)"
  by (cases v) (simp_all add: bytes_of_word_def bytes_of_dword_def)

lemma update_eeprom_block:
  assumes "valid_value v" and "type_of v \<noteq> TObject 1"
  shows "update_eeprom e dst v
     = defined (eeprom_update_block e (object_representation v) dst (sizeof (type_of v)))"
  using assms
  by (cases v)
    (simp_all add: eeprom_update_word_def eeprom_update_dword_def eeprom_update_float_def
      update_eeprom_helper_def length_bytes_of_word)

lemma read_eeprom_block:
  assumes "type_of v \<noteq> TObject 1" and "\<forall>n. type_of v \<noteq> TArray n"
    and "eeprom_read_block e src (sizeof (type_of v)) = Some (object_representation v)"
  shows "read_eeprom e (type_of v) src = Inr v"
  using assms
  by (cases v)
    (auto simp: eeprom_read_word_def eeprom_read_dword_def eeprom_read_float_def
      eeprom_read_ptr_def read_eeprom_helper_def defined_def
      word_of_bytes_of_word dword_of_bytes_of_dword split: bind_splits)

text \<open>
  The calls that compile.  For a value \<open>v\<close> of a scalar type, of a pointer type or of another
  type of two bytes or more, and a valid object at address \<open>p\<close> of the persistent memory (its
  \<^verbatim>\<open>sizeof\<close> bytes lie inside the device), \<^verbatim>\<open>writeEeprom\<close> on a destination that is not
  \<^verbatim>\<open>const\<close> returns, and reading the object afterwards, with \<^verbatim>\<open>readEeprom\<close> or through an
  \<^verbatim>\<open>EepromReference\<close>, returns \<open>v\<close>.  The write performs at most \<^verbatim>\<open>sizeof\<close> byte writes, and
  none (the device is left as it is) when every stored byte already equals the corresponding
  byte of \<open>v\<close>.
\<close>

lemma writeEeprom_round_trip:
  assumes "valid_value v" and "type_of v \<noteq> TObject 1" and "\<forall>n. type_of v \<noteq> TArray n"
    and "unat p + sizeof (type_of v) \<le> length (cells e)" and "length (cells e) \<le> 65536"
  shows "\<exists>e'. writeEeprom e \<lparr>qualification = Mutable, address = p\<rparr> v = Inr e'
    \<and> readEeprom e' (type_of v) p = Inr v
    \<and> EepromReference_value \<lparr>value_type = type_of v, pointer = p\<rparr> e' = Inr v
    \<and> writes e' \<le> writes e + sizeof (type_of v)
    \<and> (eeprom_read_block e p (sizeof (type_of v)) = Some (object_representation v)
        \<longrightarrow> writes e' = writes e \<and> e' = e)"
proof -
  let ?n = "sizeof (type_of v)" and ?bs = "object_representation v"
  have len: "?n \<le> length ?bs" and tk: "take ?n ?bs = ?bs"
    by (simp_all add: length_object_representation)
  from eeprom_update_block_read [OF len assms(4,5)]
  obtain e' where e': "eeprom_update_block e ?bs p ?n = Some e'"
    "eeprom_read_block e' p ?n = Some ?bs" "writes e' \<le> writes e + ?n"
    "eeprom_read_block e p ?n = Some ?bs \<longrightarrow> e' = e"
    unfolding tk by blast
  have w: "writeEeprom e \<lparr>qualification = Mutable, address = p\<rparr> v = Inr e'"
    using e'(1) update_eeprom_block [OF assms(1,2), of e p]
    by (simp add: writeEeprom_def defined_def)
  have r: "readEeprom e' (type_of v) p = Inr v"
    using read_eeprom_block [OF assms(2,3) e'(2)] by (simp add: readEeprom_def)
  show ?thesis
    using w r e'(3,4)
    by (intro exI [of _ e']) (auto simp: EepromReference_value_def)
qed

text \<open>The array overload of \<^verbatim>\<open>writeEeprom\<close> is wear-minimizing as well.\<close>

lemma writeEeprom_array:
  assumes "unat p + length bs \<le> length (cells e)" and "length (cells e) \<le> 65536"
  shows "\<exists>e'. writeEeprom e \<lparr>qualification = Mutable, address = p\<rparr> (VArray bs) = Inr e'
    \<and> eeprom_read_block e' p (length bs) = Some bs
    \<and> writes e' \<le> writes e + length bs
    \<and> (eeprom_read_block e p (length bs) = Some bs \<longrightarrow> e' = e)"
  using eeprom_update_block_read [OF _ assms, of bs]
  by (auto simp: writeEeprom_def defined_def)

text \<open>
  C2.  The claim reads: for every trivially copyable type \<open>T\<close> and value \<open>v\<close>, writing \<open>v\<close> to
  a valid object of the persistent memory, with \<^verbatim>\<open>writeEeprom\<close> or by assignment through an
  \<^verbatim>\<open>EepromReference\<close>, and then reading that object returns \<open>v\<close>, and the write performs no
  byte write when the stored bytes already equal those of \<open>v\<close>.  The assignment
  \<^verbatim>\<open>EepromReference<char> r(*reinterpret_cast<char *>(900)); r = 'H';\<close> is ill-formed, and so
  is the assignment through an \<^verbatim>\<open>EepromReference\<close> for every type, value and device: the
  reference holds a pointer to \<^verbatim>\<open>const\<close>, and \<^verbatim>\<open>writeEeprom\<close> cannot be called on a \<^verbatim>\<open>const\<close>
  destination.  For a type of one byte other than \<^verbatim>\<open>char\<close>, \<^verbatim>\<open>uint8_t\<close> and \<^verbatim>\<open>int8_t\<close>,
  \<^verbatim>\<open>writeEeprom\<close> and \<^verbatim>\<open>readEeprom\<close> are ill-formed as well, the latter also through a
  reference.  Scenario S3, which calls \<^verbatim>\<open>writeEeprom<char>\<close> and \<^verbatim>\<open>readEeprom<char>\<close> on the
  object at address 900 directly, does run as the claim says, here on a device of 1024 bytes
  that hold 255.
\<close>

theorem C2_reference_assignment_is_ill_formed:
  "EepromReference_assign \<lparr>value_type = TChar, pointer = 900\<rparr>
      \<lparr>cells = replicate 1024 255, writes = 0\<rparr> (VChar 72) = Inl Ill_formed
   \<and> EepromReference_assign r e v = Inl Ill_formed
   \<and> writeEeprom e \<lparr>qualification = Mutable, address = p\<rparr> (VObject [b]) = Inl Ill_formed
   \<and> readEeprom e (TObject 1) p = Inl Ill_formed
   \<and> EepromReference_value \<lparr>value_type = TObject 1, pointer = p\<rparr> e = Inl Ill_formed
   \<and> (\<exists>e'. writeEeprom \<lparr>cells = replicate 1024 255, writes = 0\<rparr>
          \<lparr>qualification = Mutable, address = 900\<rparr> (VChar 72) = Inr e'
        \<and> readEeprom e' TChar 900 = Inr (VChar 72)
        \<and> EepromReference_value \<lparr>value_type = TChar, pointer = 900\<rparr> e' = Inr (VChar 72)
        \<and> writes e' \<le> 1)"
proof -
  let ?f = "\<lparr>cells = replicate 1024 (255 :: byte), writes = 0\<rparr>"
  have 1: "EepromReference_assign r' e' v' = Inl Ill_formed" for r' e' v'
    by (simp add: EepromReference_assign_def writeEeprom_def)
  have 2: "writeEeprom e \<lparr>qualification = Mutable, address = p\<rparr> (VObject [b]) = Inl Ill_formed"
    by (simp add: writeEeprom_def update_eeprom_helper_def)
  have 3: "readEeprom e (TObject 1) p = Inl Ill_formed"
    by (simp add: readEeprom_def read_eeprom_helper_def)
  have 4: "EepromReference_value \<lparr>value_type = TObject 1, pointer = p\<rparr> e = Inl Ill_formed"
    by (simp add: EepromReference_value_def readEeprom_def read_eeprom_helper_def)
  have "\<exists>e'. writeEeprom ?f \<lparr>qualification = Mutable, address = 900\<rparr> (VChar 72) = Inr e'
      \<and> readEeprom e' (type_of (VChar 72)) 900 = Inr (VChar 72)
      \<and> EepromReference_value \<lparr>value_type = type_of (VChar 72), pointer = 900\<rparr> e'
        = Inr (VChar 72)
      \<and> writes e' \<le> writes ?f + sizeof (type_of (VChar 72))"
    using writeEeprom_round_trip [of "VChar 72" 900 ?f] by auto
  then have 5: "\<exists>e'. writeEeprom ?f \<lparr>qualification = Mutable, address = 900\<rparr> (VChar 72)
        = Inr e'
      \<and> readEeprom e' TChar 900 = Inr (VChar 72)
      \<and> EepromReference_value \<lparr>value_type = TChar, pointer = 900\<rparr> e' = Inr (VChar 72)
      \<and> writes e' \<le> 1"
    by simp
  from 1 [of "\<lparr>value_type = TChar, pointer = 900\<rparr>" ?f "VChar 72"] 1 [of r e v] 2 3 4 5
  show ?thesis
    by (intro conjI)
qed

end
